theory Spec2Isabelle
  imports Complex_Main "HOL-Library.Word" "HOL-Library.AList" "HOL-Library.Product_Lexorder"
begin

section \<open>The search route of the clause-sense backend\<close>

text \<open>
  The development embeds \<^verbatim>\<open>src/index.ts\<close>: the function \<^verbatim>\<open>cosine\<close> and the
  handler of \<^verbatim>\<open>app.post('/api/search')\<close>. The handler is one asynchronous function;
  its stages are embedded under the names of the variables they compute
  (\<^verbatim>\<open>parsedQuery\<close>, \<^verbatim>\<open>scored\<close>, \<^verbatim>\<open>usedClauses\<close>, \<^verbatim>\<open>finalJson\<close>).

  Conventions of the embedding.
  \<^item> A JavaScript string is a list of UTF-16 code units, so \<open>length\<close> is
    \<^verbatim>\<open>.length\<close>.
  \<^item> A JavaScript number is an IEEE 754 double: \<^verbatim>\<open>NaN\<close>, an infinity, or a
    finite value, with every operation rounded to the nearest double and overflowing to
    an infinity.
  \<^item> The file is an ECMAScript module, so it runs in strict mode.
  \<^item> The collection \<^verbatim>\<open>embeddings\<close> holds records as the indexer writes them:
    three strings and an array of numbers.
  \<^item> Everything outside the file (the two completion calls, the embedding model,
    \<^verbatim>\<open>JSON.parse\<close>, the Mongo collection) is a field of an environment record
    giving the outcome of the call.
\<close>

subsection \<open>Strings\<close>

type_synonym jsstring = "16 word list"

definition lit :: "string \<Rightarrow> jsstring" where
  "lit s = map of_char s"

text \<open>
  The code units that \<^verbatim>\<open>String.prototype.trim\<close> removes: the WhiteSpace and
  LineTerminator productions of ECMAScript.
\<close>

definition is_ws :: "16 word \<Rightarrow> bool" where
  "is_ws c = (c = 0x09 \<or> c = 0x0A \<or> c = 0x0B \<or> c = 0x0C \<or> c = 0x0D \<or> c = 0x20
     \<or> c = 0xA0 \<or> c = 0x1680 \<or> (0x2000 \<le> c \<and> c \<le> 0x200A) \<or> c = 0x2028
     \<or> c = 0x2029 \<or> c = 0x202F \<or> c = 0x205F \<or> c = 0x3000 \<or> c = 0xFEFF)"

definition trim :: "jsstring \<Rightarrow> jsstring" where
  "trim s = rev (dropWhile is_ws (rev (dropWhile is_ws s)))"

text \<open>
  \<^verbatim>\<open>s.replace(/pat/g, '')\<close> for a pattern that is a literal string: the matches are
  found from left to right and do not overlap.
\<close>

fun remove_all :: "jsstring \<Rightarrow> jsstring \<Rightarrow> jsstring" where
  "remove_all pat [] = []"
| "remove_all pat (c # cs) =
     (if pat \<noteq> [] \<and> take (length pat) (c # cs) = pat
      then remove_all pat (drop (length pat - 1) cs)
      else c # remove_all pat cs)"

text \<open>\<^verbatim>\<open>txt.indexOf(c)\<close> for a single code unit: the first position, or \<open>-1\<close>.\<close>

fun indexOf :: "jsstring \<Rightarrow> 16 word \<Rightarrow> int" where
  "indexOf [] c = - 1"
| "indexOf (x # xs) c =
     (if x = c then 0 else (let k = indexOf xs c in if k < 0 then - 1 else k + 1))"

text \<open>
  \<^verbatim>\<open>txt.slice(k)\<close>: a negative start counts from the end, so \<^verbatim>\<open>txt.slice(-1)\<close> is
  the last code unit.
\<close>

definition slice :: "jsstring \<Rightarrow> int \<Rightarrow> jsstring" where
  "slice txt k =
     (if k < 0 then drop (nat (max 0 (int (length txt) + k))) txt else drop (nat k) txt)"

subsection \<open>Numbers\<close>

text \<open>
  A number is \<^verbatim>\<open>NaN\<close>, \<^verbatim>\<open>Infinity\<close>, \<^verbatim>\<open>-Infinity\<close> or a finite double.
  The two zeros are one value, \<open>Fin 0\<close>: they compare as equal, and the handler
  never divides by a zero, which alone would tell them apart.
\<close>

datatype jsnum = NaN | PInf | NInf | Fin real

text \<open>
  Rounding to the nearest double, ties to even. \<open>rhe\<close> rounds a real to the nearest
  integer, ties to the even one; \<open>expo x\<close> is the binary exponent of \<open>x\<close>, held at
  \<open>-1022\<close> for the subnormal range; \<open>ulp x\<close> is the distance between neighbouring
  doubles there, 52 binary places below.
\<close>

definition rhe :: "real \<Rightarrow> int" where
  "rhe y =
     (let f = \<lfloor>y\<rfloor>; d = y - of_int f
      in if d < 1 / 2 then f else if 1 / 2 < d then f + 1 else if even f then f else f + 1)"

definition expo :: "real \<Rightarrow> int" where
  "expo x = (if \<bar>x\<bar> < 2 powr (- 1022) then - 1022 else \<lfloor>log 2 \<bar>x\<bar>\<rfloor>)"

definition ulp :: "real \<Rightarrow> real" where
  "ulp x = 2 powr of_int (expo x - 52)"

definition nearest :: "real \<Rightarrow> real" where
  "nearest x = of_int (rhe (x / ulp x)) * ulp x"

text \<open>
  The double for an exact result \<open>x\<close>. The largest double is \<open>2 ^ 1024 - 2 ^ 971\<close>;
  from half a step above it, \<open>2 ^ 1024 - 2 ^ 970\<close>, the result is an infinity.
\<close>

definition fl :: "real \<Rightarrow> jsnum" where
  "fl x =
     (if 2 ^ 1024 - 2 ^ 970 \<le> \<bar>x\<bar> then (if 0 < x then PInf else NInf)
      else Fin (nearest x))"

text \<open>\<^verbatim>\<open>x + y\<close>\<close>

definition num_add :: "jsnum \<Rightarrow> jsnum \<Rightarrow> jsnum" where
  "num_add x y =
     (case x of
        NaN \<Rightarrow> NaN
      | PInf \<Rightarrow> (case y of NaN \<Rightarrow> NaN | NInf \<Rightarrow> NaN | _ \<Rightarrow> PInf)
      | NInf \<Rightarrow> (case y of NaN \<Rightarrow> NaN | PInf \<Rightarrow> NaN | _ \<Rightarrow> NInf)
      | Fin u \<Rightarrow>
          (case y of NaN \<Rightarrow> NaN | PInf \<Rightarrow> PInf | NInf \<Rightarrow> NInf | Fin v \<Rightarrow> fl (u + v)))"

definition num_neg :: "jsnum \<Rightarrow> jsnum" where
  "num_neg x = (case x of NaN \<Rightarrow> NaN | PInf \<Rightarrow> NInf | NInf \<Rightarrow> PInf | Fin u \<Rightarrow> Fin (- u))"

text \<open>An infinity times a finite value: \<^verbatim>\<open>NaN\<close> for zero, else the sign decides.\<close>

definition inf_times :: "jsnum \<Rightarrow> real \<Rightarrow> jsnum" where
  "inf_times i u = (if u = 0 then NaN else if 0 < u then i else num_neg i)"

text \<open>\<^verbatim>\<open>x * y\<close>\<close>

definition num_mul :: "jsnum \<Rightarrow> jsnum \<Rightarrow> jsnum" where
  "num_mul x y =
     (case x of
        NaN \<Rightarrow> NaN
      | PInf \<Rightarrow>
          (case y of NaN \<Rightarrow> NaN | PInf \<Rightarrow> PInf | NInf \<Rightarrow> NInf | Fin v \<Rightarrow> inf_times PInf v)
      | NInf \<Rightarrow>
          (case y of NaN \<Rightarrow> NaN | PInf \<Rightarrow> NInf | NInf \<Rightarrow> PInf | Fin v \<Rightarrow> inf_times NInf v)
      | Fin u \<Rightarrow>
          (case y of NaN \<Rightarrow> NaN | PInf \<Rightarrow> inf_times PInf u | NInf \<Rightarrow> inf_times NInf u
           | Fin v \<Rightarrow> fl (u * v)))"

text \<open>
  \<^verbatim>\<open>x ** 2\<close> and \<^verbatim>\<open>Math.sqrt(x)\<close>. ECMAScript leaves their accuracy to the engine;
  they are taken correctly rounded, like the other operations.
\<close>

definition num_sq :: "jsnum \<Rightarrow> jsnum" where
  "num_sq x = (case x of NaN \<Rightarrow> NaN | PInf \<Rightarrow> PInf | NInf \<Rightarrow> PInf | Fin u \<Rightarrow> fl (u ^ 2))"

definition num_sqrt :: "jsnum \<Rightarrow> jsnum" where
  "num_sqrt x =
     (case x of NaN \<Rightarrow> NaN | PInf \<Rightarrow> PInf | NInf \<Rightarrow> NaN
      | Fin u \<Rightarrow> if u < 0 then NaN else fl (sqrt u))"

text \<open>
  \<^verbatim>\<open>x / y\<close>. A finite value over an infinity is a zero; a zero divisor is read as
  \<open>+0\<close>, so it gives \<^verbatim>\<open>NaN\<close> under a zero and an infinity of the dividend's sign
  otherwise.
\<close>

definition num_div :: "jsnum \<Rightarrow> jsnum \<Rightarrow> jsnum" where
  "num_div x y =
     (case y of
        NaN \<Rightarrow> NaN
      | PInf \<Rightarrow> (case x of Fin u \<Rightarrow> Fin 0 | _ \<Rightarrow> NaN)
      | NInf \<Rightarrow> (case x of Fin u \<Rightarrow> Fin 0 | _ \<Rightarrow> NaN)
      | Fin v \<Rightarrow>
          (case x of
             NaN \<Rightarrow> NaN
           | PInf \<Rightarrow> (if v < 0 then NInf else PInf)
           | NInf \<Rightarrow> (if v < 0 then PInf else NInf)
           | Fin u \<Rightarrow>
               if v = 0 then (if u = 0 then NaN else if 0 < u then PInf else NInf)
               else fl (u / v)))"

subsection \<open>\<^verbatim>\<open>cosine\<close>\<close>

text \<open>
  \<^verbatim>\<open>b[i]\<close> read as a number: past the end of the array it is \<^verbatim>\<open>undefined\<close>,
  which arithmetic turns into \<^verbatim>\<open>NaN\<close>. The elements of the arrays are finite
  doubles.
\<close>

definition num_at :: "real list \<Rightarrow> nat \<Rightarrow> jsnum" where
  "num_at b i = (if i < length b then Fin (b ! i) else NaN)"

text \<open>The literal \<^verbatim>\<open>1e-10\<close>: the double nearest to it.\<close>

definition epsilon :: jsnum where
  "epsilon = fl (1 / 10 ^ 10)"

text \<open>The body of the \<^verbatim>\<open>for\<close> loop of \<^verbatim>\<open>cosine\<close>, on the triple \<open>(dot, na, nb)\<close>.\<close>

definition cosine_step ::
  "real list \<Rightarrow> real list \<Rightarrow> nat \<Rightarrow> jsnum \<times> jsnum \<times> jsnum \<Rightarrow> jsnum \<times> jsnum \<times> jsnum" where
  "cosine_step a b i acc =
     (case acc of (dot, na, nb) \<Rightarrow>
        (num_add dot (num_mul (num_at a i) (num_at b i)),
         num_add na (num_sq (num_at a i)),
         num_add nb (num_sq (num_at b i))))"

definition cosine_loop :: "real list \<Rightarrow> real list \<Rightarrow> nat \<Rightarrow> jsnum \<times> jsnum \<times> jsnum" where
  "cosine_loop a b n = fold (cosine_step a b) [0..<n] (Fin 0, Fin 0, Fin 0)"

text \<open>\<^verbatim>\<open>Math.sqrt(na) * Math.sqrt(nb) + 1e-10\<close>\<close>

definition denominator :: "jsnum \<Rightarrow> jsnum \<Rightarrow> jsnum" where
  "denominator na nb = num_add (num_mul (num_sqrt na) (num_sqrt nb)) epsilon"

definition cosine :: "real list \<Rightarrow> real list \<Rightarrow> jsnum" where
  "cosine a b =
     (case cosine_loop a b (length a) of (dot, na, nb) \<Rightarrow> num_div dot (denominator na nb))"

definition MIN_SIMILARITY :: real where
  "MIN_SIMILARITY = 25 / 100"

definition TOP_K :: nat where
  "TOP_K = 6"

subsection \<open>Values\<close>

text \<open>
  A JavaScript value as \<^verbatim>\<open>JSON.parse\<close> builds it. An object is the list of its
  own properties in insertion order, each key once. \<open>JNull\<close> also stands for
  \<^verbatim>\<open>undefined\<close> where a whole value is meant; an absent property is \<open>None\<close>.
\<close>

datatype jsval =
    JNull
  | JBool bool
  | JNum jsnum
  | JStr jsstring
  | JArr "jsval list"
  | JObj "(jsstring \<times> jsval) list"

text \<open>What \<^verbatim>\<open>if (v)\<close> and \<^verbatim>\<open>!v\<close> test.\<close>

fun truthy :: "jsval \<Rightarrow> bool" where
  "truthy JNull = False"
| "truthy (JBool b) = b"
| "truthy (JNum NaN) = False"
| "truthy (JNum (Fin r)) = (r \<noteq> 0)"
| "truthy (JNum PInf) = True"
| "truthy (JNum NInf) = True"
| "truthy (JStr s) = (s \<noteq> [])"
| "truthy (JArr xs) = True"
| "truthy (JObj kvs) = True"

text \<open>
  \<^verbatim>\<open>v.length === 0\<close> for a truthy value \<open>v\<close>: arrays and strings have a length,
  an object has one when it owns a property of that name, booleans and numbers have none.
\<close>

fun length_is_zero :: "jsval \<Rightarrow> bool" where
  "length_is_zero (JArr xs) = (length xs = 0)"
| "length_is_zero (JStr s) = (length s = 0)"
| "length_is_zero (JObj kvs) = (map_of kvs (lit ''length'') = Some (JNum (Fin 0)))"
| "length_is_zero v = False"

text \<open>
  An exception: a \<^verbatim>\<open>TypeError\<close> raised by the handler's own code, or the rejection
  of an awaited external call with its message.
\<close>

datatype exn = TypeError | Failure jsstring

text \<open>
  A resolved chat completion, as far as the handler reads it:
  \<^verbatim>\<open>resp.choices[0].message.content\<close> either is a string or \<^verbatim>\<open>null\<close>, or the
  path to it does not exist and reading it raises a \<^verbatim>\<open>TypeError\<close> (\<open>Malformed\<close>).
\<close>

datatype chat = Malformed | Content "jsstring option"

subsection \<open>Records of the pipeline\<close>

record fragment =
  dataset :: jsstring
  id_e :: jsstring
  text_e :: jsstring
  embedding :: "real list"

record scored_item =
  score :: jsnum
  item :: fragment

record clause =
  dataset_c :: jsstring
  clause_ref :: jsstring
  excerpt :: jsstring
  score_c :: jsnum

record audit_record =
  query :: jsstring
  parsed_query :: "jsval option"
  decision :: "jsval option"
  clauses_used :: "jsval option"

text \<open>
  The outcomes of the calls that leave the file. \<open>sort_unspecified\<close> is the order
  the engine's \<^verbatim>\<open>Array.prototype.sort\<close> produces when the comparator returns
  \<^verbatim>\<open>NaN\<close>, which ECMAScript leaves to the implementation.
\<close>

record env =
  parseResp :: "exn + chat"
  embedText :: "jsstring \<Rightarrow> exn + real list"
  decisionResp :: "exn + chat"
  JSON_parse :: "jsstring \<Rightarrow> jsval option"
  QueryLog_create :: "audit_record \<Rightarrow> exn option"
  sort_unspecified :: "scored_item list \<Rightarrow> scored_item list"

datatype response = Json200 jsval | Json400 jsval | Json500 exn

subsection \<open>Stage 1: \<^verbatim>\<open>parsedQuery\<close>\<close>

text \<open>
  \<^verbatim>\<open>txt.replace(/```json/g, '').replace(/```/g, '').trim()\<close>
\<close>

definition strip_fences :: "jsstring \<Rightarrow> jsstring" where
  "strip_fences txt = trim (remove_all (lit ''```'') (remove_all (lit ''```json'') txt))"

text \<open>\<^verbatim>\<open>content || ''\<close>\<close>

definition content_or_empty :: "jsstring option \<Rightarrow> jsstring" where
  "content_or_empty c = (case c of None \<Rightarrow> [] | Some s \<Rightarrow> s)"

definition parsedQuery :: "(jsstring \<Rightarrow> jsval option) \<Rightarrow> chat \<Rightarrow> jsval" where
  "parsedQuery parse resp =
     (case resp of
        Malformed \<Rightarrow> JObj []
      | Content c \<Rightarrow>
          (case parse (strip_fences (content_or_empty c)) of
             None \<Rightarrow> JObj []
           | Some v \<Rightarrow> v))"

subsection \<open>Stage 2: \<^verbatim>\<open>scored\<close> and \<^verbatim>\<open>usedClauses\<close>\<close>

text \<open>\<^verbatim>\<open>s.score >= MIN_SIMILARITY\<close>: false for \<^verbatim>\<open>NaN\<close>.\<close>

definition num_ge :: "jsnum \<Rightarrow> real \<Rightarrow> bool" where
  "num_ge x r = (case x of NaN \<Rightarrow> False | PInf \<Rightarrow> True | NInf \<Rightarrow> False | Fin u \<Rightarrow> r \<le> u)"

definition is_number :: "scored_item \<Rightarrow> bool" where
  "is_number s = (case score s of NaN \<Rightarrow> False | _ \<Rightarrow> True)"

text \<open>
  \<^verbatim>\<open>.sort((a, b) => b.score - a.score)\<close>. When no score is \<^verbatim>\<open>NaN\<close> the
  comparator is consistent: the difference of two doubles has the sign of their order
  (it is zero only for equal doubles), and two equal infinities compare as equal. The
  sort is then the stable sort by descending score: \<open>sort_rank\<close> puts \<^verbatim>\<open>Infinity\<close>
  first, the finite scores in descending order next, \<^verbatim>\<open>-Infinity\<close> last, under the
  lexicographic order of pairs.
\<close>

definition sort_rank :: "scored_item \<Rightarrow> int \<times> real" where
  "sort_rank s =
     (case score s of PInf \<Rightarrow> (0, 0) | Fin u \<Rightarrow> (1, - u) | NInf \<Rightarrow> (2, 0) | NaN \<Rightarrow> (3, 0))"

definition sort_desc ::
  "(scored_item list \<Rightarrow> scored_item list) \<Rightarrow> scored_item list \<Rightarrow> scored_item list" where
  "sort_desc engine xs = (if list_all is_number xs then sort_key sort_rank xs else engine xs)"

definition scored ::
  "(scored_item list \<Rightarrow> scored_item list) \<Rightarrow> real list \<Rightarrow> fragment list \<Rightarrow> scored_item list" where
  "scored engine qEmb embeddings =
     sort_desc engine (map (\<lambda>e. \<lparr>score = cosine qEmb (embedding e), item = e\<rparr>) embeddings)"

definition to_clause :: "scored_item \<Rightarrow> clause" where
  "to_clause s =
     \<lparr>dataset_c = dataset (item s), clause_ref = id_e (item s),
      excerpt = text_e (item s), score_c = score s\<rparr>"

text \<open>\<^verbatim>\<open>c.excerpt && c.excerpt.trim().length > 10\<close>\<close>

definition long_enough :: "clause \<Rightarrow> bool" where
  "long_enough c = (excerpt c \<noteq> [] \<and> 10 < length (trim (excerpt c)))"

definition primary :: "scored_item list \<Rightarrow> clause list" where
  "primary sc =
     filter long_enough
       (map to_clause (take TOP_K (filter (\<lambda>s. num_ge (score s) MIN_SIMILARITY) sc)))"

definition fallback :: "scored_item list \<Rightarrow> clause list" where
  "fallback sc = map to_clause (take TOP_K sc)"

definition usedClauses :: "scored_item list \<Rightarrow> clause list" where
  "usedClauses sc = (if length (primary sc) = 0 then fallback sc else primary sc)"

subsection \<open>Stage 3: \<^verbatim>\<open>finalJson\<close>\<close>

definition clause_json :: "clause \<Rightarrow> jsval" where
  "clause_json c =
     JObj [(lit ''dataset'', JStr (dataset_c c)),
           (lit ''clause_ref'', JStr (clause_ref c)),
           (lit ''excerpt'', JStr (excerpt c)),
           (lit ''score'', JNum (score_c c))]"

definition clauses_json :: "clause list \<Rightarrow> jsval" where
  "clauses_json uc = JArr (map clause_json uc)"

text \<open>The object built in the \<^verbatim>\<open>catch\<close> block.\<close>

definition fallback_json :: "jsval \<Rightarrow> clause list \<Rightarrow> jsval" where
  "fallback_json pq uc =
     JObj [(lit ''parsed_query'', pq),
           (lit ''decision'',
              JObj [(lit ''status'', JStr (lit ''Pending'')),
                    (lit ''amount'', JNull),
                    (lit ''justification'', JStr (lit ''Could not parse LLM output''))]),
           (lit ''clauses_used'', clauses_json uc)]"

text \<open>\<^verbatim>\<open>JSON.parse(txt.slice(txt.indexOf('{')))\<close> inside \<^verbatim>\<open>try\<close>.\<close>

definition finalJson ::
  "(jsstring \<Rightarrow> jsval option) \<Rightarrow> chat \<Rightarrow> jsval \<Rightarrow> clause list \<Rightarrow> jsval" where
  "finalJson parse resp pq uc =
     (case resp of
        Malformed \<Rightarrow> fallback_json pq uc
      | Content c \<Rightarrow>
          (let txt = strip_fences (content_or_empty c) in
           case parse (slice txt (indexOf txt 0x7B)) of
             None \<Rightarrow> fallback_json pq uc
           | Some v \<Rightarrow> v))"

text \<open>\<^verbatim>\<open>!finalJson.clauses_used || finalJson.clauses_used.length === 0\<close>\<close>

definition needs_repair :: "jsval option \<Rightarrow> bool" where
  "needs_repair p = (case p of None \<Rightarrow> True | Some v \<Rightarrow> \<not> truthy v \<or> length_is_zero v)"

text \<open>
  Lines 199 to 201 on each kind of value. Reading a property of \<^verbatim>\<open>null\<close> raises;
  a boolean, a number or a string has no property \<^verbatim>\<open>clauses_used\<close>, and the assignment
  to a property of a primitive raises in strict mode; an array takes the property, which
  \<^verbatim>\<open>res.json\<close> does not serialise; an object is updated in place.
\<close>

fun repair :: "jsval \<Rightarrow> clause list \<Rightarrow> exn + jsval" where
  "repair (JObj kvs) uc =
     (if needs_repair (map_of kvs (lit ''clauses_used''))
      then Inr (JObj (AList.update (lit ''clauses_used'') (clauses_json uc) kvs))
      else Inr (JObj kvs))"
| "repair (JArr xs) uc = Inr (JArr xs)"
| "repair v uc = Inl TypeError"

subsection \<open>Stage 4: the audit record and the response\<close>

text \<open>
  The argument of \<^verbatim>\<open>QueryLog.create\<close>. For an array the three properties are read
  from the array object, where only \<^verbatim>\<open>clauses_used\<close> has just been set.
\<close>

fun log_entry :: "jsstring \<Rightarrow> jsval \<Rightarrow> clause list \<Rightarrow> audit_record" where
  "log_entry q (JObj kvs) uc =
     \<lparr>query = q, parsed_query = map_of kvs (lit ''parsed_query''),
      decision = map_of kvs (lit ''decision''),
      clauses_used = map_of kvs (lit ''clauses_used'')\<rparr>"
| "log_entry q v uc =
     \<lparr>query = q, parsed_query = None, decision = None,
      clauses_used = Some (clauses_json uc)\<rparr>"

text \<open>
  \<^verbatim>\<open>const { query } = req.body\<close>: destructuring \<^verbatim>\<open>null\<close> or \<^verbatim>\<open>undefined\<close> raises;
  a value that is not an object has no property \<^verbatim>\<open>query\<close>.
\<close>

fun body_query :: "jsval \<Rightarrow> exn + jsval option" where
  "body_query JNull = Inl TypeError"
| "body_query (JObj kvs) = Inr (map_of kvs (lit ''query''))"
| "body_query v = Inr None"

text \<open>\<^verbatim>\<open>!query || typeof query !== 'string'\<close>\<close>

fun is_string :: "jsval \<Rightarrow> bool" where
  "is_string (JStr s) = True"
| "is_string v = False"

definition rejected :: "jsval option \<Rightarrow> bool" where
  "rejected q = (case q of None \<Rightarrow> True | Some v \<Rightarrow> \<not> truthy v \<or> \<not> is_string v)"

definition error_400 :: jsval where
  "error_400 = JObj [(lit ''error'', JStr (lit ''query (string) is required''))]"

text \<open>
  Everything after the check of the request, for the string \<open>q\<close>. The awaited calls
  are made in the order of the source, and the first one that fails ends the request in
  the outer \<^verbatim>\<open>catch\<close>. The result is the response and the records written to the
  audit store.
\<close>

definition pipeline ::
  "env \<Rightarrow> fragment list \<Rightarrow> jsstring \<Rightarrow> response \<times> audit_record list" where
  "pipeline env embeddings q =
     (case parseResp env of
        Inl e \<Rightarrow> (Json500 e, [])
      | Inr r1 \<Rightarrow>
          (let pq = parsedQuery (JSON_parse env) r1 in
           case embedText env q of
             Inl e \<Rightarrow> (Json500 e, [])
           | Inr qEmb \<Rightarrow>
               (let uc = usedClauses (scored (sort_unspecified env) qEmb embeddings) in
                case decisionResp env of
                  Inl e \<Rightarrow> (Json500 e, [])
                | Inr r2 \<Rightarrow>
                    (case repair (finalJson (JSON_parse env) r2 pq uc) uc of
                       Inl e \<Rightarrow> (Json500 e, [])
                     | Inr fj \<Rightarrow>
                         (case QueryLog_create env (log_entry q fj uc) of
                            Some e \<Rightarrow> (Json500 e, [])
                          | None \<Rightarrow> (Json200 fj, [log_entry q fj uc]))))))"

text \<open>The handler of \<^verbatim>\<open>app.post('/api/search')\<close> on the request body.\<close>

definition search_route ::
  "env \<Rightarrow> fragment list \<Rightarrow> jsval \<Rightarrow> response \<times> audit_record list" where
  "search_route env embeddings body =
     (case body_query body of
        Inl e \<Rightarrow> (Json500 e, [])
      | Inr q \<Rightarrow>
          if rejected q then (Json400 error_400, [])
          else (case q of
                  Some (JStr s) \<Rightarrow> pipeline env embeddings s
                | _ \<Rightarrow> (Json400 error_400, [])))"

subsection \<open>Notions used in the statements\<close>

text \<open>The strings handed to \<^verbatim>\<open>JSON.parse\<close> at the two stages.\<close>

definition extraction_text :: "jsstring option \<Rightarrow> jsstring" where
  "extraction_text c = strip_fences (content_or_empty c)"

definition decision_text :: "jsstring option \<Rightarrow> jsstring" where
  "decision_text c =
     (let txt = strip_fences (content_or_empty c) in slice txt (indexOf txt 0x7B))"

text \<open>
  An own property of an object, a property of \<^verbatim>\<open>v.decision\<close>, and
  \<^verbatim>\<open>v.decision.status\<close>.
\<close>

fun get_prop :: "jsval \<Rightarrow> jsstring \<Rightarrow> jsval option" where
  "get_prop (JObj kvs) k = map_of kvs k"
| "get_prop v k = None"

definition decision_field :: "jsval \<Rightarrow> jsstring \<Rightarrow> jsval option" where
  "decision_field v k =
     (case get_prop v (lit ''decision'') of None \<Rightarrow> None | Some d \<Rightarrow> get_prop d k)"

definition status_of :: "jsval \<Rightarrow> jsval option" where
  "status_of v = decision_field v (lit ''status'')"

definition enumerated_status :: "jsval option \<Rightarrow> bool" where
  "enumerated_status st =
     (st = Some (JStr (lit ''Approved'')) \<or> st = Some (JStr (lit ''Rejected''))
      \<or> st = Some (JStr (lit ''Pending'')))"

text \<open>Both scores are finite numbers and the first is at least the second.\<close>

definition score_ge :: "clause \<Rightarrow> clause \<Rightarrow> bool" where
  "score_ge c d =
     (case score_c c of
        Fin u \<Rightarrow> (case score_c d of Fin v \<Rightarrow> v \<le> u | _ \<Rightarrow> False)
      | _ \<Rightarrow> False)"

text \<open>
  What the sums of squares of \<^verbatim>\<open>cosine\<close> can be: \<^verbatim>\<open>Infinity\<close> or a double
  that is not negative.
\<close>

definition acc_ok :: "jsnum \<Rightarrow> bool" where
  "acc_ok n =
     (case n of NaN \<Rightarrow> False | PInf \<Rightarrow> True | NInf \<Rightarrow> False
      | Fin v \<Rightarrow> 0 \<le> v \<and> v < 2 ^ 1024)"

subsection \<open>Example data\<close>

text \<open>Concrete fragments, environments and requests at which the theorems are instantiated.\<close>

definition frag1 :: fragment where
  "frag1 = \<lparr>dataset = lit ''policy.pdf'', id_e = lit ''policy.pdf::1'',
     text_e = lit ''  knee surgery is excluded  '', embedding = [1]\<rparr>"

text \<open>
  The denominator of \<^verbatim>\<open>cosine\<close> for two vectors of norm 1: the double nearest to
  \<open>1 + 1e-10\<close>.
\<close>

definition unit_den :: real where
  "unit_den = nearest (1 + nearest (1 / 10 ^ 10))"

definition clause1 :: clause where
  "clause1 = \<lparr>dataset_c = lit ''policy.pdf'', clause_ref = lit ''policy.pdf::1'',
     excerpt = lit ''  knee surgery is excluded  '',
     score_c = Fin (nearest (1 / unit_den))\<rparr>"

definition frag_opposite :: fragment where
  "frag_opposite = \<lparr>dataset = lit ''a.pdf'', id_e = lit ''a.pdf::1'',
     text_e = lit ''opposite'', embedding = [- 1, 0]\<rparr>"

definition frag_orthogonal :: fragment where
  "frag_orthogonal = \<lparr>dataset = lit ''a.pdf'', id_e = lit ''a.pdf::2'',
     text_e = lit ''orthogonal'', embedding = [0, 1]\<rparr>"

text \<open>
  An environment in which every call succeeds, both completions answer with text that
  is not JSON, and \<^verbatim>\<open>JSON.parse\<close> rejects every string; the requests below hand
  it only strings that \<^verbatim>\<open>JSON.parse\<close> does reject.
\<close>

definition env_ok :: env where
  "env_ok = \<lparr>parseResp = Inr (Content (Some (lit ''not json''))),
     embedText = (\<lambda>q. Inr [1]),
     decisionResp = Inr (Content (Some (lit ''not json''))),
     JSON_parse = (\<lambda>s. None),
     QueryLog_create = (\<lambda>r. None),
     sort_unspecified = id\<rparr>"

definition body_knee :: jsval where
  "body_knee = JObj [(lit ''query'', JStr (lit ''knee surgery''))]"

text \<open>
  Texts that are JSON, built with the double quote as code unit \<open>0x22\<close>, and the
  values \<^verbatim>\<open>JSON.parse\<close> gives for them. \<open>parse_only t v\<close> parses \<open>t\<close> to \<open>v\<close>
  and rejects every other string; the environments below hand it, apart from \<open>t\<close>, only
  strings that \<^verbatim>\<open>JSON.parse\<close> rejects.
\<close>

definition quoted :: "string \<Rightarrow> jsstring" where
  "quoted s = 0x22 # lit s @ [0x22]"

definition parse_only :: "jsstring \<Rightarrow> jsval \<Rightarrow> jsstring \<Rightarrow> jsval option" where
  "parse_only t v s = (if s = t then Some v else None)"

definition text_maybe :: jsstring where
  "text_maybe = lit ''{'' @ quoted ''decision'' @ lit '':{'' @ quoted ''status'' @ lit '':''
     @ quoted ''Maybe'' @ lit ''}}''"

definition json_maybe :: jsval where
  "json_maybe = JObj [(lit ''decision'', JObj [(lit ''status'', JStr (lit ''Maybe''))])]"

definition env_maybe :: env where
  "env_maybe = env_ok\<lparr>decisionResp := Inr (Content (Some text_maybe)),
     JSON_parse := parse_only text_maybe json_maybe\<rparr>"

definition text_unused :: jsstring where
  "text_unused = lit ''{'' @ quoted ''decision'' @ lit '':{'' @ quoted ''status'' @ lit '':''
     @ quoted ''Approved'' @ lit ''},'' @ quoted ''clauses_used'' @ lit '':[]}''"

definition json_unused :: jsval where
  "json_unused = JObj [(lit ''decision'', JObj [(lit ''status'', JStr (lit ''Approved''))]),
     (lit ''clauses_used'', JArr [])]"

definition env_unused :: env where
  "env_unused = env_ok\<lparr>decisionResp := Inr (Content (Some text_unused)),
     JSON_parse := parse_only text_unused json_unused\<rparr>"

definition env_store_down :: env where
  "env_store_down =
     env_ok\<lparr>QueryLog_create := (\<lambda>r. Some (Failure (lit ''store unavailable'')))\<rparr>"

definition env_42 :: env where
  "env_42 = env_ok\<lparr>parseResp := Inr (Content (Some (lit ''42''))),
     JSON_parse := parse_only (lit ''42'') (JNum (Fin 42))\<rparr>"

definition env_model_error :: env where
  "env_model_error = env_ok\<lparr>parseResp := Inl (Failure (lit ''model unavailable''))\<rparr>"

text \<open>
  A completion that answers the adjudication prompt in prose ending in a digit; the only
  string \<^verbatim>\<open>JSON.parse\<close> accepts in that request is \<open>2\<close>.
\<close>

definition env_prose :: env where
  "env_prose = env_ok\<lparr>decisionResp := Inr (Content (Some (lit ''see clause 2''))),
     JSON_parse := parse_only (lit ''2'') (JNum (Fin 2))\<rparr>"

text \<open>A completion that answers the adjudication prompt with the JSON text \<open>2\<close>.\<close>

definition env_digit :: env where
  "env_digit = env_ok\<lparr>decisionResp := Inr (Content (Some (lit ''2''))),
     JSON_parse := parse_only (lit ''2'') (JNum (Fin 2))\<rparr>"

definition body_empty_query :: jsval where
  "body_empty_query = JObj [(lit ''query'', JStr [])]"

section \<open>Rounding to a double\<close>

lemma rhe_error: "\<bar>of_int (rhe y) - y\<bar> \<le> 1 / 2"
  unfolding rhe_def Let_def by (auto simp: abs_if) linarith+

lemma rhe_ge_floor: "\<lfloor>y\<rfloor> \<le> rhe y"
  unfolding rhe_def Let_def by auto

lemma rhe_le_ceiling: "rhe y \<le> \<lceil>y\<rceil>"
  unfolding rhe_def Let_def by (auto simp: ceiling_altdef)

lemma rhe_of_int: "rhe (of_int k) = k"
  unfolding rhe_def Let_def by simp

lemma rhe_nonneg: "0 \<le> y \<Longrightarrow> 0 \<le> rhe y"
  using rhe_ge_floor [of y] by (simp add: order_trans [of 0 "\<lfloor>y\<rfloor>"])

lemma rhe_nonpos: "y \<le> 0 \<Longrightarrow> rhe y \<le> 0"
  using rhe_le_ceiling [of y] by (meson ceiling_le_zero order_trans of_int_0 ceiling_mono ceiling_zero)

lemma expo_ge: "- 1022 \<le> expo x"
proof (cases "\<bar>x\<bar> < 2 powr (- 1022)")
  case True
  then show ?thesis by (simp add: expo_def)
next
  case False
  then have "2 powr of_int (- 1022) \<le> \<bar>x\<bar>" by simp
  then have "of_int (- 1022) \<le> log 2 \<bar>x\<bar>"
    by (subst le_log_iff) (auto simp del: of_int_minus)
  then have "- 1022 \<le> \<lfloor>log 2 \<bar>x\<bar>\<rfloor>"
    by (simp only: le_floor_iff)
  with False show ?thesis by (simp add: expo_def)
qed

lemma expo_lower: "2 powr (- 1022) \<le> \<bar>x\<bar> \<Longrightarrow> 2 powr of_int (expo x) \<le> \<bar>x\<bar>"
proof -
  assume a: "2 powr (- 1022) \<le> \<bar>x\<bar>"
  then have pos: "0 < \<bar>x\<bar>"
    using powr_gt_zero [of 2 "- 1022"] by linarith
  from a have e: "expo x = \<lfloor>log 2 \<bar>x\<bar>\<rfloor>" by (simp add: expo_def)
  from floor_log_eq_powr_iff [OF pos, of 2 "expo x"] e show ?thesis by simp
qed

lemma expo_upper: "\<bar>x\<bar> < 2 powr of_int (expo x + 1)"
proof (cases "\<bar>x\<bar> < 2 powr (- 1022)")
  case True
  have "(2::real) powr (- 1022) \<le> 2 powr (- 1021)"
    by simp
  with True have "\<bar>x\<bar> < 2 powr (- 1021)" by linarith
  with True show ?thesis by (simp add: expo_def)
next
  case False
  then have a: "2 powr (- 1022) \<le> \<bar>x\<bar>" by simp
  then have pos: "0 < \<bar>x\<bar>"
    using powr_gt_zero [of 2 "- 1022"] by linarith
  from a have e: "expo x = \<lfloor>log 2 \<bar>x\<bar>\<rfloor>" by (simp add: expo_def)
  from floor_log_eq_powr_iff [OF pos, of 2 "expo x"] e show ?thesis by simp
qed

lemma expo_unique:
  assumes "2 powr of_int e \<le> \<bar>x\<bar>" and "\<bar>x\<bar> < 2 powr of_int (e + 1)" and "- 1022 \<le> e"
  shows "expo x = e"
proof -
  from assms(3) have "(2::real) powr (- 1022) \<le> 2 powr of_int e"
    by (subst powr_le_cancel_iff) simp_all
  with assms(1) have a: "2 powr (- 1022) \<le> \<bar>x\<bar>" by linarith
  then have pos: "0 < \<bar>x\<bar>"
    using powr_gt_zero [of 2 "- 1022"] by linarith
  from a have "expo x = \<lfloor>log 2 \<bar>x\<bar>\<rfloor>" by (simp add: expo_def)
  also from floor_log_eq_powr_iff [OF pos, of 2 e] assms(1,2) have "\<lfloor>log 2 \<bar>x\<bar>\<rfloor> = e"
    by simp
  finally show ?thesis .
qed

lemma expo_mono_pow:
  assumes "2 powr of_int e \<le> \<bar>x\<bar>"
  shows "e \<le> expo x"
proof -
  from assms expo_upper [of x] have "(2::real) powr of_int e < 2 powr of_int (expo x + 1)"
    by linarith
  then have "real_of_int e < real_of_int (expo x + 1)" by simp
  then show ?thesis by linarith
qed

lemma expo_le_pow:
  assumes "\<bar>x\<bar> \<le> 2 powr of_int e" and "- 1022 \<le> e"
  shows "expo x \<le> e"
proof (cases "\<bar>x\<bar> < 2 powr (- 1022)")
  case True
  with assms(2) show ?thesis by (simp add: expo_def)
next
  case False
  then have "2 powr of_int (expo x) \<le> \<bar>x\<bar>" by (simp add: expo_lower)
  with assms(1) have "(2::real) powr of_int (expo x) \<le> 2 powr of_int e" by linarith
  then have "real_of_int (expo x) \<le> real_of_int e" by simp
  then show ?thesis by linarith
qed

lemma ulp_pos: "0 < ulp x"
  by (simp add: ulp_def)

lemma ulp_scale: "2 powr of_int (expo x) = 2 ^ 52 * ulp x"
proof -
  have "(2::real) powr of_int (expo x) = 2 powr (of_int (expo x - 52) + 52)" by simp
  also have "\<dots> = 2 powr of_int (expo x - 52) * 2 powr 52" by (rule powr_add)
  finally show ?thesis by (simp add: ulp_def)
qed

lemma nearest_zero: "nearest 0 = 0"
  by (simp add: nearest_def rhe_def)

lemma nearest_nonneg: "0 \<le> x \<Longrightarrow> 0 \<le> nearest x"
  using ulp_pos [of x] by (simp add: nearest_def rhe_nonneg)

lemma nearest_nonpos: "x \<le> 0 \<Longrightarrow> nearest x \<le> 0"
proof -
  assume "x \<le> 0"
  then have "x / ulp x \<le> 0" using ulp_pos [of x] by (simp add: divide_nonpos_pos)
  then have "rhe (x / ulp x) \<le> 0" by (rule rhe_nonpos)
  then show ?thesis using ulp_pos [of x]
    by (simp add: nearest_def mult_nonpos_nonneg)
qed

lemma nearest_ge_binade:
  assumes "2 powr (- 1022) \<le> x"
  shows "2 powr of_int (expo x) \<le> nearest x"
proof -
  from assms have x: "0 < x" using powr_gt_zero [of 2 "- 1022"] by linarith
  with assms have "2 powr of_int (expo x) \<le> x" using expo_lower [of x] by simp
  then have "2 ^ 52 * ulp x \<le> x" by (simp add: ulp_scale)
  then have "2 ^ 52 \<le> x / ulp x" using ulp_pos [of x] by (simp add: pos_le_divide_eq)
  then have "(2 ^ 52 :: int) \<le> \<lfloor>x / ulp x\<rfloor>" by (simp add: le_floor_iff)
  with rhe_ge_floor [of "x / ulp x"] have "(2 ^ 52 :: int) \<le> rhe (x / ulp x)" by linarith
  then have "(2 ^ 52 :: real) \<le> of_int (rhe (x / ulp x))"
    using of_int_le_iff [of "2 ^ 52" "rhe (x / ulp x)", where ?'a = real] by simp
  then have "2 ^ 52 * ulp x \<le> of_int (rhe (x / ulp x)) * ulp x"
    using ulp_pos [of x] by (simp add: mult_right_mono)
  then show ?thesis by (simp add: ulp_scale nearest_def)
qed

lemma nearest_le_neg_binade:
  assumes "x \<le> - (2 powr (- 1022))"
  shows "nearest x \<le> - (2 powr of_int (expo x))"
proof -
  from assms have n: "2 powr (- 1022) \<le> \<bar>x\<bar>" by simp
  have neg: "x < 0" using assms powr_gt_zero [of 2 "- 1022"] by linarith
  from expo_lower [OF n] neg have "x \<le> - (2 powr of_int (expo x))" by simp
  then have "x \<le> - (2 ^ 52) * ulp x" by (simp add: ulp_scale)
  then have "x / ulp x \<le> - (2 ^ 52)" using ulp_pos [of x] by (simp add: pos_divide_le_eq)
  then have "x / ulp x \<le> of_int (- (2 ^ 52))" by simp
  then have "\<lceil>x / ulp x\<rceil> \<le> - (2 ^ 52)" by (simp only: ceiling_le_iff)
  with rhe_le_ceiling [of "x / ulp x"] have "rhe (x / ulp x) \<le> - (2 ^ 52)" by linarith
  then have "real_of_int (rhe (x / ulp x)) \<le> - (2 ^ 52)"
    using of_int_le_iff [of "rhe (x / ulp x)" "- (2 ^ 52)", where ?'a = real] by simp
  then have "real_of_int (rhe (x / ulp x)) * ulp x \<le> - (2 ^ 52) * ulp x"
    using ulp_pos [of x] by (simp only: mult_right_mono less_imp_le)
  then show ?thesis by (simp add: ulp_scale nearest_def)
qed

lemma nearest_abs_le_binade: "\<bar>nearest x\<bar> \<le> 2 powr of_int (expo x + 1)"
proof -
  have "\<bar>x\<bar> < 2 powr of_int (expo x + 1)" by (rule expo_upper)
  also have "\<dots> = 2 * 2 powr of_int (expo x)"
    by (simp add: powr_add)
  also have "\<dots> = 2 ^ 53 * ulp x" by (simp add: ulp_scale)
  finally have "\<bar>x\<bar> / ulp x < 2 ^ 53" using ulp_pos [of x] by (simp add: pos_divide_less_eq)
  then have "\<bar>x / ulp x\<bar> < 2 ^ 53" using ulp_pos [of x] by (simp add: abs_divide)
  then have "x / ulp x \<le> of_int (2 ^ 53)" "of_int (- (2 ^ 53)) \<le> x / ulp x"
    by (simp_all add: abs_if split: if_splits)
  then have "\<lceil>x / ulp x\<rceil> \<le> 2 ^ 53" "- (2 ^ 53) \<le> \<lfloor>x / ulp x\<rfloor>"
    by (simp_all only: ceiling_le_iff le_floor_iff)
  with rhe_le_ceiling [of "x / ulp x"] rhe_ge_floor [of "x / ulp x"]
  have "\<bar>rhe (x / ulp x)\<bar> \<le> 2 ^ 53" by linarith
  then have "\<bar>real_of_int (rhe (x / ulp x))\<bar> \<le> 2 ^ 53"
    using of_int_le_iff [of "\<bar>rhe (x / ulp x)\<bar>" "2 ^ 53", where ?'a = real] by simp
  then have "\<bar>real_of_int (rhe (x / ulp x))\<bar> * ulp x \<le> 2 ^ 53 * ulp x"
    using ulp_pos [of x] by (simp add: mult_right_mono)
  then have "\<bar>nearest x\<bar> \<le> 2 ^ 53 * ulp x"
    using ulp_pos [of x] by (simp add: nearest_def abs_mult)
  also have "2 ^ 53 * ulp x = 2 powr of_int (expo x + 1)"
    by (simp add: ulp_scale powr_add)
  finally show ?thesis .
qed

lemma nearest_ge_pow2:
  assumes "2 powr of_int e \<le> x" and "- 1022 \<le> e"
  shows "2 powr of_int e \<le> nearest x"
proof -
  have x: "0 < x" using assms(1) powr_gt_zero [of 2 "of_int e"] by linarith
  from assms(2) have "(2::real) powr (- 1022) \<le> 2 powr of_int e"
    by (subst powr_le_cancel_iff) simp_all
  with assms(1) have n: "2 powr (- 1022) \<le> x" by linarith
  from assms(1) x have "e \<le> expo x" using expo_mono_pow [of e x] by simp
  then have "(2::real) powr of_int e \<le> 2 powr of_int (expo x)"
    by (subst powr_le_cancel_iff) simp_all
  with nearest_ge_binade [OF n] show ?thesis by linarith
qed

lemma nearest_le_neg_pow2:
  assumes "x \<le> - (2 powr of_int e)" and "- 1022 \<le> e"
  shows "nearest x \<le> - (2 powr of_int e)"
proof -
  from assms(2) have "(2::real) powr (- 1022) \<le> 2 powr of_int e"
    by (subst powr_le_cancel_iff) simp_all
  with assms(1) have n: "x \<le> - (2 powr (- 1022))" by linarith
  from assms(1) have "2 powr of_int e \<le> \<bar>x\<bar>" by simp
  then have "e \<le> expo x" by (rule expo_mono_pow)
  then have "(2::real) powr of_int e \<le> 2 powr of_int (expo x)"
    by (subst powr_le_cancel_iff) simp_all
  with nearest_le_neg_binade [OF n] show ?thesis by linarith
qed

lemma nearest_le_pow2:
  assumes "0 \<le> x" and "x \<le> 2 powr of_int e" and "- 1022 \<le> e"
  shows "nearest x \<le> 2 powr of_int e"
proof -
  from assms have le: "expo x \<le> e" using expo_le_pow [of x e] by simp
  define k where "k = nat (e - expo x + 52)"
  from le have k: "int k = e - expo x + 52" by (simp add: k_def)
  have "2 powr of_int e = 2 powr (of_int (expo x - 52) + of_int (int k))"
    by (simp add: k)
  also have "\<dots> = ulp x * 2 powr of_int (int k)"
    by (simp only: powr_add ulp_def)
  also have "(2::real) powr of_int (int k) = 2 ^ k"
    by (simp add: powr_realpow)
  finally have e: "2 powr of_int e = ulp x * 2 ^ k" .
  with assms(2) have "x / ulp x \<le> 2 ^ k"
    using ulp_pos [of x] by (simp add: pos_divide_le_eq mult.commute)
  then have "x / ulp x \<le> of_int (2 ^ k)" by simp
  then have "\<lceil>x / ulp x\<rceil> \<le> 2 ^ k" by (simp only: ceiling_le_iff)
  with rhe_le_ceiling [of "x / ulp x"] have "rhe (x / ulp x) \<le> 2 ^ k" by linarith
  then have "real_of_int (rhe (x / ulp x)) \<le> 2 ^ k"
    using of_int_le_iff [of "rhe (x / ulp x)" "2 ^ k", where ?'a = real] by simp
  then have "real_of_int (rhe (x / ulp x)) * ulp x \<le> 2 ^ k * ulp x"
    using ulp_pos [of x] by (simp add: mult_right_mono)
  then show ?thesis by (simp add: nearest_def e mult.commute)
qed

lemma nearest_pow2: "- 1022 \<le> e \<Longrightarrow> nearest (2 powr of_int e) = 2 powr of_int e"
  using nearest_ge_pow2 [of e "2 powr of_int e"] nearest_le_pow2 [of "2 powr of_int e" e]
  by simp

lemma nearest_one: "nearest 1 = 1"
  using nearest_pow2 [of 0] by simp

lemma nearest_error: "\<bar>nearest x - x\<bar> \<le> ulp x / 2"
proof -
  have "nearest x - x = (of_int (rhe (x / ulp x)) - x / ulp x) * ulp x"
    using ulp_pos [of x] by (simp add: nearest_def algebra_simps)
  then have "\<bar>nearest x - x\<bar> = \<bar>of_int (rhe (x / ulp x)) - x / ulp x\<bar> * ulp x"
    using ulp_pos [of x] by (simp add: abs_mult)
  also have "\<dots> \<le> 1 / 2 * ulp x"
    using rhe_error [of "x / ulp x"] ulp_pos [of x] by (simp add: mult_right_mono)
  finally show ?thesis by simp
qed

lemma nearest_in_range:
  assumes "\<bar>x\<bar> < 2 ^ 1024 - 2 ^ 970"
  shows "\<bar>nearest x\<bar> < 2 ^ 1024"
proof -
  have p: "(2::real) powr of_int 1024 = 2 ^ 1024"
    using powr_realpow [of 2 1024] by simp
  have "\<bar>x\<bar> \<le> 2 powr of_int 1024" using assms p by simp
  then have "expo x \<le> 1024" by (rule expo_le_pow) simp
  moreover have "expo x \<noteq> 1024"
  proof
    assume "expo x = 1024"
    moreover have "2 powr (- 1022) \<le> \<bar>x\<bar>"
    proof (rule ccontr)
      assume "\<not> 2 powr (- 1022) \<le> \<bar>x\<bar>"
      then have "expo x = - 1022" by (simp add: expo_def)
      with \<open>expo x = 1024\<close> show False by simp
    qed
    ultimately have "2 powr of_int 1024 \<le> \<bar>x\<bar>" using expo_lower [of x] by simp
    with assms p show False by simp
  qed
  ultimately have "expo x - 52 \<le> 971" by simp
  then have "ulp x \<le> 2 powr of_int 971"
    unfolding ulp_def by (subst powr_le_cancel_iff) simp_all
  also have "(2::real) powr of_int 971 = 2 ^ 971"
    using powr_realpow [of 2 971] by simp
  finally have "ulp x / 2 \<le> 2 ^ 970" by simp
  with nearest_error [of x] have "\<bar>nearest x\<bar> \<le> \<bar>x\<bar> + 2 ^ 970" by linarith
  with assms show ?thesis by linarith
qed

lemma fl_zero: "fl 0 = Fin 0"
  by (simp add: fl_def nearest_zero)

lemma fl_one: "fl 1 = Fin 1"
  by (simp add: fl_def nearest_one)

lemma fl_minus_one: "fl (- 1) = Fin (- 1)"
proof -
  have e: "expo (- 1) = 0" by (rule expo_unique) simp_all
  have u: "ulp (- 1) = 1 / 2 ^ 52" by (simp add: ulp_def e powr_minus_divide)
  have "(- 1) / ulp (- 1) = of_int (- (2 ^ 52))" by (simp add: u)
  then have "rhe ((- 1) / ulp (- 1)) = - (2 ^ 52)" by (simp only: rhe_of_int)
  then have "nearest (- 1) = - 1" by (simp add: nearest_def u)
  then show ?thesis by (simp add: fl_def)
qed

lemma fl_not_NaN: "fl x \<noteq> NaN"
  by (simp add: fl_def)

lemma fl_nonneg: "0 \<le> x \<Longrightarrow> acc_ok (fl x)"
  using nearest_in_range [of x] nearest_nonneg [of x]
  by (simp add: fl_def acc_ok_def)

lemma small_in_range: "\<bar>x\<bar> \<le> 1 \<Longrightarrow> fl x = Fin (nearest x)"
proof -
  assume "\<bar>x\<bar> \<le> 1"
  moreover have "(1::real) < 2 ^ 1024 - 2 ^ 970" by simp
  ultimately have "\<not> 2 ^ 1024 - 2 ^ 970 \<le> \<bar>x\<bar>" by linarith
  then show ?thesis by (simp only: fl_def if_False)
qed

section \<open>Properties of \<^verbatim>\<open>cosine\<close>\<close>

lemma acc_ok_add_Fin: "acc_ok (Fin u) \<Longrightarrow> acc_ok (Fin v) \<Longrightarrow> acc_ok (fl (u + v))"
  by (rule fl_nonneg) (simp add: acc_ok_def)

lemma acc_ok_add: "acc_ok p \<Longrightarrow> acc_ok q \<Longrightarrow> acc_ok (num_add p q)"
proof (cases p)
  case (Fin u)
  show "acc_ok p \<Longrightarrow> acc_ok q \<Longrightarrow> acc_ok (num_add p q)"
  proof (cases q)
    case (Fin v)
    assume "acc_ok p" "acc_ok q"
    then have "acc_ok (fl (u + v))" using \<open>p = Fin u\<close> Fin by (simp add: acc_ok_add_Fin)
    then show ?thesis using \<open>p = Fin u\<close> Fin by (simp add: num_add_def)
  qed (simp_all add: Fin num_add_def acc_ok_def)
qed (cases q; simp add: num_add_def acc_ok_def)+

lemma acc_ok_sq: "acc_ok (num_sq (Fin u))"
  by (simp add: num_sq_def fl_nonneg)

lemma cosine_loop_Suc:
  "cosine_loop a b (Suc n) = cosine_step a b n (cosine_loop a b n)"
  by (simp add: cosine_loop_def)

lemma cosine_loop_acc_ok:
  "n \<le> length a \<Longrightarrow> n \<le> length b \<Longrightarrow>
   acc_ok (fst (snd (cosine_loop a b n))) \<and> acc_ok (snd (snd (cosine_loop a b n)))"
proof (induction n)
  case 0
  show ?case by (simp add: cosine_loop_def acc_ok_def)
next
  case (Suc n)
  then have ih: "acc_ok (fst (snd (cosine_loop a b n)))" "acc_ok (snd (snd (cosine_loop a b n)))"
    by simp_all
  from Suc.prems have "num_at a n = Fin (a ! n)" "num_at b n = Fin (b ! n)"
    by (simp_all add: num_at_def)
  with ih show ?case
    by (cases "cosine_loop a b n")
      (simp add: cosine_loop_Suc cosine_step_def acc_ok_add acc_ok_sq)
qed

lemma cosine_loop_past_end:
  "length b < n \<Longrightarrow> n \<le> length a \<Longrightarrow> fst (cosine_loop a b n) = NaN"
proof (induction n)
  case 0
  then show ?case by simp
next
  case (Suc n)
  show ?case
  proof (cases "length b = n")
    case True
    then show ?thesis
      by (cases "cosine_loop a b n")
        (simp add: cosine_loop_Suc cosine_step_def num_at_def num_add_def num_mul_def
          split: jsnum.splits)
  next
    case False
    with Suc.prems have "length b < n" "n \<le> length a" by simp_all
    then have "fst (cosine_loop a b n) = NaN" by (rule Suc.IH)
    then show ?thesis
      by (cases "cosine_loop a b n")
        (simp add: cosine_loop_Suc cosine_step_def num_add_def)
  qed
qed

lemma cosine_past_end:
  assumes "length b < length a"
  shows "cosine a b = NaN"
proof -
  from assms have "fst (cosine_loop a b (length a)) = NaN"
    by (simp add: cosine_loop_past_end)
  then show ?thesis
    by (cases "cosine_loop a b (length a)") (simp add: cosine_def num_div_def split: jsnum.splits)
qed

lemma dot_zero_left:
  "\<forall>v\<in>set a. v = 0 \<Longrightarrow> n \<le> length a \<Longrightarrow> n \<le> length b \<Longrightarrow>
   fst (cosine_loop a b n) = Fin 0"
proof (induction n)
  case 0
  show ?case by (simp add: cosine_loop_def)
next
  case (Suc n)
  then have "fst (cosine_loop a b n) = Fin 0" by simp
  moreover from Suc.prems have z: "a ! n = 0" by (simp add: nth_mem)
  ultimately show ?case using Suc.prems
    by (cases "cosine_loop a b n")
      (simp add: cosine_loop_Suc cosine_step_def num_at_def num_add_def num_mul_def fl_zero z)
qed

lemma dot_zero_right:
  "\<forall>v\<in>set b. v = 0 \<Longrightarrow> n \<le> length a \<Longrightarrow> n \<le> length b \<Longrightarrow>
   fst (cosine_loop a b n) = Fin 0"
proof (induction n)
  case 0
  show ?case by (simp add: cosine_loop_def)
next
  case (Suc n)
  then have "fst (cosine_loop a b n) = Fin 0" by simp
  moreover from Suc.prems have z: "b ! n = 0" by (simp add: nth_mem)
  ultimately show ?case using Suc.prems
    by (cases "cosine_loop a b n")
      (simp add: cosine_loop_Suc cosine_step_def num_at_def num_add_def num_mul_def fl_zero z)
qed

lemma epsilon_bounds: "\<exists>e. epsilon = Fin e \<and> 2 powr (- 1022) \<le> e \<and> e \<le> 2 powr (- 33)"
proof -
  have a: "(2::real) powr of_int (- 1022) \<le> 1 / 10 ^ 10"
    by (simp add: powr_minus_divide)
  have b: "(1::real) / 10 ^ 10 \<le> 2 powr of_int (- 33)"
    by (simp add: powr_minus_divide)
  have "2 powr of_int (- 1022) \<le> nearest (1 / 10 ^ 10)"
    using a by (rule nearest_ge_pow2) simp
  moreover have "nearest (1 / 10 ^ 10) \<le> 2 powr of_int (- 33)"
    using _ b by (rule nearest_le_pow2) simp_all
  ultimately show ?thesis by (simp add: epsilon_def fl_def)
qed

lemma sqrt_acc_ok:
  assumes "acc_ok (Fin x)"
  shows "\<exists>s. num_sqrt (Fin x) = Fin s \<and> 0 \<le> s"
proof -
  from assms have x: "0 \<le> x" "x < 2 ^ 1024" by (simp_all add: acc_ok_def)
  have "x < (2 ^ 512)\<^sup>2" using x by simp
  then have "sqrt x < 2 ^ 512" by (rule real_less_lsqrt [rotated]) simp
  moreover have "(2::real) ^ 512 \<le> 2 ^ 1024 - 2 ^ 970" by simp
  moreover have "0 \<le> sqrt x" using x by simp
  ultimately have "\<bar>sqrt x\<bar> < 2 ^ 1024 - 2 ^ 970" by linarith
  then have "fl (sqrt x) = Fin (nearest (sqrt x))" by (simp add: fl_def)
  moreover have "0 \<le> nearest (sqrt x)" using x by (simp add: nearest_nonneg)
  ultimately show ?thesis using x by (simp add: num_sqrt_def)
qed

lemma denominator_positive:
  assumes "acc_ok (Fin x)" and "acc_ok (Fin y)"
  shows "denominator (Fin x) (Fin y) = PInf \<or> (\<exists>r. denominator (Fin x) (Fin y) = Fin r \<and> 0 < r)"
proof -
  from sqrt_acc_ok [OF assms(1)] obtain s where s: "num_sqrt (Fin x) = Fin s" "0 \<le> s" by blast
  from sqrt_acc_ok [OF assms(2)] obtain t where t: "num_sqrt (Fin y) = Fin t" "0 \<le> t" by blast
  from epsilon_bounds obtain e where e: "epsilon = Fin e" "2 powr (- 1022) \<le> e" by blast
  have epos: "0 < e" using e(2) powr_gt_zero [of 2 "- 1022"] by linarith
  have "acc_ok (fl (s * t))" using s t by (simp add: fl_nonneg)
  then consider "fl (s * t) = PInf" | p where "fl (s * t) = Fin p" "0 \<le> p"
    by (cases "fl (s * t)") (simp_all add: acc_ok_def)
  then show ?thesis
  proof cases
    case 1
    then show ?thesis by (simp add: denominator_def s t e num_mul_def num_add_def)
  next
    case 2
    have d: "denominator (Fin x) (Fin y) = fl (p + e)"
      by (simp add: denominator_def s t e num_mul_def num_add_def 2)
    show ?thesis
    proof (cases "2 ^ 1024 - 2 ^ 970 \<le> \<bar>p + e\<bar>")
      case True
      then show ?thesis using 2 epos by (simp add: d fl_def)
    next
      case False
      have "2 powr of_int (- 1022) \<le> p + e" using 2 e by simp
      then have "2 powr of_int (- 1022) \<le> nearest (p + e)"
        by (rule nearest_ge_pow2) simp
      then have "0 < nearest (p + e)"
        using powr_gt_zero [of 2 "of_int (- 1022)"] by linarith
      with False show ?thesis by (simp add: d fl_def)
    qed
  qed
qed

lemma denominator_unit:
  "denominator (Fin 1) (Fin 1) = Fin unit_den \<and> 1 \<le> unit_den \<and> unit_den \<le> 2"
proof -
  from epsilon_bounds obtain e where
    e: "epsilon = Fin e" "2 powr (- 1022) \<le> e" "e \<le> 2 powr (- 33)"
    by blast
  have "fl (1 / 10 ^ 10) = Fin (nearest (1 / 10 ^ 10))"
    by (rule small_in_range) simp
  with e(1) have ev: "e = nearest (1 / 10 ^ 10)" by (simp add: epsilon_def)
  have e0: "0 \<le> e" using e(2) powr_gt_zero [of 2 "- 1022"] by linarith
  have "(2::real) powr (- 33) \<le> 1" by (simp add: powr_minus_divide)
  with e(3) have e1: "e \<le> 1" by linarith
  have "2 powr of_int 0 \<le> 1 + e" using e0 by simp
  then have lo: "2 powr of_int 0 \<le> nearest (1 + e)" by (rule nearest_ge_pow2) simp
  have "1 + e \<le> 2 powr of_int 1" using e1 by simp
  with _ have hi: "nearest (1 + e) \<le> 2 powr of_int 1"
    by (rule nearest_le_pow2) (use e0 in simp_all)
  have ud: "unit_den = nearest (1 + e)" unfolding unit_den_def ev ..
  have "fl (1 + e) = Fin (nearest (1 + e))" using e0 e1 by (simp add: fl_def)
  then have "denominator (Fin 1) (Fin 1) = Fin (nearest (1 + e))"
    by (simp add: denominator_def num_sqrt_def num_mul_def num_add_def fl_one e)
  with lo hi show ?thesis by (simp add: ud)
qed

lemma quotient_pos:
  assumes "1 \<le> d" and "d \<le> 2"
  shows "num_div (Fin 1) (Fin d) = Fin (nearest (1 / d)) \<and> 1 / 2 \<le> nearest (1 / d)"
proof -
  have h: "1 / 2 \<le> 1 / d" "1 / d \<le> 1" using assms by (simp_all add: field_simps)
  then have "2 powr of_int (- 1) \<le> 1 / d" by (simp add: powr_minus_divide)
  then have "2 powr of_int (- 1) \<le> nearest (1 / d)" by (rule nearest_ge_pow2) simp
  then have "1 / 2 \<le> nearest (1 / d)" by (simp add: powr_minus_divide)
  moreover have "fl (1 / d) = Fin (nearest (1 / d))"
    using h assms by (intro small_in_range) simp
  ultimately show ?thesis using assms by (simp add: num_div_def)
qed

lemma quotient_neg:
  assumes "1 \<le> d" and "d \<le> 2"
  shows "num_div (Fin (- 1)) (Fin d) = Fin (nearest (- 1 / d))
    \<and> nearest (- 1 / d) \<le> - (1 / 2)"
proof -
  have h: "1 / 2 \<le> 1 / d" "1 / d \<le> 1" using assms by (simp_all add: field_simps)
  then have "- 1 / d \<le> - (2 powr of_int (- 1))" by (simp add: powr_minus_divide)
  then have "nearest (- 1 / d) \<le> - (2 powr of_int (- 1))" by (rule nearest_le_neg_pow2) simp
  then have "nearest (- 1 / d) \<le> - (1 / 2)" by (simp add: powr_minus_divide)
  moreover have "fl (- 1 / d) = Fin (nearest (- 1 / d))"
    using h assms by (intro small_in_range) simp
  ultimately show ?thesis using assms by (simp add: num_div_def)
qed

lemma quotient_zero:
  assumes "1 \<le> d"
  shows "num_div (Fin 0) (Fin d) = Fin 0"
  using assms by (simp add: num_div_def fl_zero)

lemma loop_unit: "cosine_loop [1] [1] (Suc 0) = (Fin 1, Fin 1, Fin 1)"
  by (simp add: cosine_loop_def cosine_step_def num_at_def num_add_def num_mul_def num_sq_def
      fl_one)

lemma cosine_unit:
  "cosine [1] [1] = Fin (nearest (1 / unit_den)) \<and> 1 / 2 \<le> nearest (1 / unit_den)"
proof -
  from denominator_unit have d: "denominator (Fin 1) (Fin 1) = Fin unit_den"
    "1 \<le> unit_den" "unit_den \<le> 2" by simp_all
  from quotient_pos [OF d(2,3)] show ?thesis
    using loop_unit by (simp add: cosine_def d)
qed

lemma loop_opposite: "cosine_loop [1, 0] [- 1, 0] (Suc (Suc 0)) = (Fin (- 1), Fin 1, Fin 1)"
  by (simp add: cosine_loop_def cosine_step_def num_at_def num_add_def num_mul_def num_sq_def
      fl_one fl_zero fl_minus_one)

lemma loop_orthogonal: "cosine_loop [1, 0] [0, 1] (Suc (Suc 0)) = (Fin 0, Fin 1, Fin 1)"
  by (simp add: cosine_loop_def cosine_step_def num_at_def num_add_def num_mul_def num_sq_def
      fl_one fl_zero)

lemma cosine_opposite:
  "cosine [1, 0] [- 1, 0] = Fin (nearest (- 1 / unit_den))
   \<and> nearest (- 1 / unit_den) \<le> - (1 / 2)"
proof -
  from denominator_unit have d: "denominator (Fin 1) (Fin 1) = Fin unit_den"
    "1 \<le> unit_den" "unit_den \<le> 2" by simp_all
  from quotient_neg [OF d(2,3)] show ?thesis
    using loop_opposite by (simp add: cosine_def d)
qed

lemma cosine_orthogonal: "cosine [1, 0] [0, 1] = Fin 0"
proof -
  from denominator_unit have d: "denominator (Fin 1) (Fin 1) = Fin unit_den"
    "1 \<le> unit_den" by simp_all
  from quotient_zero [OF d(2)] show ?thesis
    using loop_orthogonal by (simp add: cosine_def d)
qed

lemma loop_zero_unit: "cosine_loop [0] [1] (Suc 0) = (Fin 0, Fin 0, Fin 1)"
  by (simp add: cosine_loop_def cosine_step_def num_at_def num_add_def num_mul_def num_sq_def
      fl_one fl_zero)

text \<open>
  C10. The claim is that for every two vectors of equal length \<^verbatim>\<open>cosine\<close> returns a
  number, and 0 when one of them is a zero vector. Below: the vector with the one
  element \<open>2 ^ 600\<close>, a finite double whose square is \<^verbatim>\<open>Infinity\<close>; the cosine
  with itself is \<^verbatim>\<open>Infinity / Infinity\<close> and the cosine with the zero vector needs
  \<^verbatim>\<open>0 * Infinity\<close>, both \<^verbatim>\<open>NaN\<close>.
\<close>

theorem cosine_overflow_counterexample:
  "length [2 ^ 600 :: real] = length [2 ^ 600 :: real]
   \<and> cosine [2 ^ 600] [2 ^ 600] = NaN
   \<and> cosine [0] [2 ^ 600] = NaN"
  by (simp add: cosine_def cosine_loop_def cosine_step_def num_at_def num_mul_def num_sq_def
      num_add_def denominator_def num_sqrt_def num_div_def fl_def epsilon_def nearest_zero
      inf_times_def flip: power_mult)

text \<open>
  C10, as the function has it. For vectors of equal length, when the three sums of the
  loop are finite, the denominator \<open>sqrt na * sqrt nb + 1e-10\<close> is strictly positive
  (or \<^verbatim>\<open>Infinity\<close>), so there is no division by zero; the result is the rounded
  quotient, never \<^verbatim>\<open>NaN\<close>; and it is 0 when one of the vectors is a zero vector.
  When \<open>a\<close> is longer than \<open>b\<close>, the read of \<open>b\<close> past its end makes the result
  \<^verbatim>\<open>NaN\<close>.
\<close>

theorem cosine_without_overflow:
  "(length a = length b \<and> cosine_loop a b (length a) = (Fin d, Fin x, Fin y) \<longrightarrow>
      (denominator (Fin x) (Fin y) = PInf
         \<or> (\<exists>r. denominator (Fin x) (Fin y) = Fin r \<and> 0 < r))
      \<and> cosine a b = num_div (Fin d) (denominator (Fin x) (Fin y))
      \<and> cosine a b \<noteq> NaN
      \<and> (((\<forall>v\<in>set a. v = 0) \<or> (\<forall>v\<in>set b. v = 0)) \<longrightarrow> cosine a b = Fin 0))
   \<and> (length b < length a \<longrightarrow> cosine a b = NaN)"
proof (intro conjI impI)
  assume h: "length a = length b \<and> cosine_loop a b (length a) = (Fin d, Fin x, Fin y)"
  then have len: "length a = length b" by (rule conjunct1)
  from h have loop: "cosine_loop a b (length a) = (Fin d, Fin x, Fin y)" by (rule conjunct2)
  have "length a \<le> length a" "length a \<le> length b" using len by simp_all
  from cosine_loop_acc_ok [OF this]
  have ok: "acc_ok (Fin x)" "acc_ok (Fin y)" unfolding loop by simp_all
  show den: "denominator (Fin x) (Fin y) = PInf
         \<or> (\<exists>r. denominator (Fin x) (Fin y) = Fin r \<and> 0 < r)"
    using ok by (rule denominator_positive)
  show eq: "cosine a b = num_div (Fin d) (denominator (Fin x) (Fin y))"
    by (simp add: cosine_def loop)
  from den show "cosine a b \<noteq> NaN"
    by (auto simp: eq num_div_def fl_not_NaN)
  assume "(\<forall>v\<in>set a. v = 0) \<or> (\<forall>v\<in>set b. v = 0)"
  then have "fst (cosine_loop a b (length a)) = Fin 0"
    using len dot_zero_left [of a "length a" b] dot_zero_right [of b "length a" a] by auto
  with loop have "d = 0" by simp
  with den show "cosine a b = Fin 0"
    by (auto simp: eq num_div_def fl_zero)
next
  assume "length b < length a"
  then show "cosine a b = NaN" by (rule cosine_past_end)
qed

theorem cosine_without_overflow_witness:
  "cosine_loop [0] [1] (length [0::real]) = (Fin 0, Fin 0, Fin 1)
   \<and> cosine [0] [1] = Fin 0 \<and> cosine [1, 2] [1] = NaN"
proof -
  have l: "length [0::real] = length [1::real]
      \<and> cosine_loop [0] [1] (length [0::real]) = (Fin 0, Fin 0, Fin 1)"
    by (simp add: loop_zero_unit)
  have z: "(\<forall>v\<in>set [0::real]. v = 0) \<or> (\<forall>v\<in>set [1::real]. v = 0)" by simp
  have g: "length [1::real] < length [1::real, 2]" by simp
  from cosine_without_overflow [of "[0]" "[1]" 0 0 1] l z
  have a: "cosine [0] [1] = Fin 0" by blast
  from cosine_without_overflow [of "[1, 2]" "[1]"] g
  have b: "cosine [1, 2] [1] = NaN" by blast
  from l a b show ?thesis by blast
qed

section \<open>The Clause Retriever\<close>

lemma length_primary: "length (primary sc) \<le> TOP_K"
proof -
  have "length (primary sc)
      \<le> length (take TOP_K (filter (\<lambda>s. num_ge (score s) MIN_SIMILARITY) sc))"
    unfolding primary_def by (metis length_filter_le length_map)
  then show ?thesis by simp
qed

lemma length_fallback: "length (fallback sc) = min TOP_K (length sc)"
  by (simp add: fallback_def min.commute)

lemma length_usedClauses: "length (usedClauses sc) \<le> TOP_K"
  using length_primary [of sc] by (simp add: usedClauses_def length_fallback)

lemma primary_long: "c \<in> set (primary sc) \<Longrightarrow> 11 \<le> length (trim (excerpt c))"
  by (simp add: primary_def long_enough_def)

lemma scored_frag1:
  "scored engine [1] [frag1] = [\<lparr>score = Fin (nearest (1 / unit_den)), item = frag1\<rparr>]"
  using cosine_unit by (simp add: scored_def sort_desc_def is_number_def frag1_def)

lemma primary_frag1: "primary (scored engine [1] [frag1]) = [clause1]"
proof -
  have "num_ge (Fin (nearest (1 / unit_den))) MIN_SIMILARITY"
    using cosine_unit by (simp add: num_ge_def MIN_SIMILARITY_def)
  then show ?thesis
    unfolding scored_frag1
    by (simp add: primary_def TOP_K_def to_clause_def long_enough_def frag1_def clause1_def
        trim_def lit_def is_ws_def)
qed

lemma used_frag1: "usedClauses (scored engine [1] [frag1]) = [clause1]"
  by (simp add: usedClauses_def primary_frag1)

text \<open>
  C5. For every query embedding and every collection, \<^verbatim>\<open>usedClauses\<close> holds at most
  \<open>TOP_K = 6\<close> clauses; and when the threshold selection is not empty (the primary
  path), \<^verbatim>\<open>usedClauses\<close> is that selection and every excerpt in it has at least 11
  code units after trimming.
\<close>

theorem usedClauses_at_most_TOP_K:
  "length (usedClauses (scored engine qEmb embeddings)) \<le> TOP_K \<and> TOP_K = 6
   \<and> (primary (scored engine qEmb embeddings) \<noteq> [] \<longrightarrow>
        usedClauses (scored engine qEmb embeddings) = primary (scored engine qEmb embeddings)
        \<and> (\<forall>c\<in>set (usedClauses (scored engine qEmb embeddings)).
              11 \<le> length (trim (excerpt c))))"
proof (intro conjI impI ballI)
  show "length (usedClauses (scored engine qEmb embeddings)) \<le> TOP_K"
    by (rule length_usedClauses)
  show "TOP_K = 6" by (simp add: TOP_K_def)
next
  assume "primary (scored engine qEmb embeddings) \<noteq> []"
  then show eq: "usedClauses (scored engine qEmb embeddings)
      = primary (scored engine qEmb embeddings)"
    by (simp add: usedClauses_def)
  fix c assume "c \<in> set (usedClauses (scored engine qEmb embeddings))"
  with eq show "11 \<le> length (trim (excerpt c))"
    by (simp add: primary_long)
qed

theorem usedClauses_at_most_TOP_K_witness:
  "primary (scored id [1] [frag1]) = [clause1]
   \<and> usedClauses (scored id [1] [frag1]) = [clause1]
   \<and> length (usedClauses (scored id [1] [frag1])) \<le> 6
   \<and> 11 \<le> length (trim (excerpt clause1))"
  using usedClauses_at_most_TOP_K [of id "[1]" "[frag1]"]
  by (simp add: primary_frag1)

lemma sorted_desc_clauses:
  assumes "list_all (\<lambda>s. \<exists>u. score s = Fin u) xs" and "sorted (map sort_rank xs)"
  shows "sorted_wrt score_ge (map to_clause xs)"
proof -
  have "sorted_wrt (\<lambda>s t. sort_rank s \<le> sort_rank t) xs"
    using assms(2) by (simp add: sorted_map)
  moreover have "score_ge (to_clause s) (to_clause t)"
    if "s \<in> set xs" "t \<in> set xs" "sort_rank s \<le> sort_rank t" for s t
  proof -
    from that(1,2) assms(1) obtain u v where "score s = Fin u" "score t = Fin v"
      unfolding list_all_iff by blast
    with that(3) show ?thesis
      by (simp add: sort_rank_def score_ge_def to_clause_def less_eq_prod_def)
  qed
  ultimately have "sorted_wrt (\<lambda>s t. score_ge (to_clause s) (to_clause t)) xs"
    by (rule sorted_wrt_mono_rel [rotated])
  then show ?thesis by (simp add: sorted_wrt_map)
qed

lemma scored_two:
  "scored engine [1, 0] [frag_opposite, frag_orthogonal] =
     [\<lparr>score = Fin 0, item = frag_orthogonal\<rparr>,
      \<lparr>score = Fin (nearest (- 1 / unit_den)), item = frag_opposite\<rparr>]"
  using cosine_opposite
  by (simp add: scored_def sort_desc_def is_number_def sort_rank_def cosine_orthogonal
      frag_opposite_def frag_orthogonal_def less_eq_prod_def)

text \<open>
  C6. When the score of every fragment of the collection is a number below
  \<open>MIN_SIMILARITY\<close>, the threshold selection is empty, \<^verbatim>\<open>usedClauses\<close> is the
  fallback selection, it has exactly \<open>min TOP_K |collection|\<close> clauses, and they are
  in descending order of score.
\<close>

theorem fallback_when_all_below:
  assumes below: "\<forall>e\<in>set embeddings. \<exists>u. cosine qEmb (embedding e) = Fin u \<and> u < MIN_SIMILARITY"
  shows "primary (scored engine qEmb embeddings) = []
    \<and> usedClauses (scored engine qEmb embeddings) = fallback (scored engine qEmb embeddings)
    \<and> length (usedClauses (scored engine qEmb embeddings)) = min TOP_K (length embeddings)
    \<and> sorted_wrt score_ge (usedClauses (scored engine qEmb embeddings))"
proof -
  let ?xs = "map (\<lambda>e. \<lparr>score = cosine qEmb (embedding e), item = e\<rparr>) embeddings"
  have fin: "list_all (\<lambda>s. \<exists>u. score s = Fin u) ?xs"
    using below by (auto simp: list_all_iff)
  then have nums: "list_all is_number ?xs"
    by (auto simp: list_all_iff is_number_def)
  then have sc: "scored engine qEmb embeddings = sort_key sort_rank ?xs"
    by (simp add: scored_def sort_desc_def)
  have low: "\<not> num_ge (score s) MIN_SIMILARITY" if "s \<in> set (sort_key sort_rank ?xs)" for s
    using that below by (auto simp: num_ge_def)
  then have "filter (\<lambda>s. num_ge (score s) MIN_SIMILARITY) (sort_key sort_rank ?xs) = []"
    by (simp add: filter_empty_conv)
  then have prim: "primary (scored engine qEmb embeddings) = []"
    by (simp add: primary_def sc)
  then have used: "usedClauses (scored engine qEmb embeddings)
      = fallback (scored engine qEmb embeddings)"
    by (simp add: usedClauses_def)
  have len: "length (fallback (scored engine qEmb embeddings)) = min TOP_K (length embeddings)"
    by (simp add: length_fallback sc)
  have "list_all (\<lambda>s. \<exists>u. score s = Fin u) (take TOP_K (sort_key sort_rank ?xs))"
  proof -
    have "s \<in> set ?xs" if "s \<in> set (take TOP_K (sort_key sort_rank ?xs))" for s
      using in_set_takeD [OF that] by simp
    with fin show ?thesis unfolding list_all_iff by blast
  qed
  moreover have "sorted (map sort_rank (take TOP_K (sort_key sort_rank ?xs)))"
    by (simp add: take_map [symmetric] sorted_wrt_take)
  ultimately have "sorted_wrt score_ge (map to_clause (take TOP_K (sort_key sort_rank ?xs)))"
    by (rule sorted_desc_clauses)
  then have "sorted_wrt score_ge (fallback (scored engine qEmb embeddings))"
    by (simp add: fallback_def sc)
  with prim used len show ?thesis by simp
qed

theorem fallback_when_all_below_witness:
  "cosine [1, 0] (embedding frag_opposite) = Fin (nearest (- 1 / unit_den))
   \<and> nearest (- 1 / unit_den) < MIN_SIMILARITY
   \<and> cosine [1, 0] (embedding frag_orthogonal) = Fin 0 \<and> 0 < MIN_SIMILARITY
   \<and> length (usedClauses (scored id [1, 0] [frag_opposite, frag_orthogonal])) = 2
   \<and> sorted_wrt score_ge (usedClauses (scored id [1, 0] [frag_opposite, frag_orthogonal]))
   \<and> map clause_ref (usedClauses (scored id [1, 0] [frag_opposite, frag_orthogonal]))
       = [lit ''a.pdf::2'', lit ''a.pdf::1'']"
proof -
  have e: "embedding frag_opposite = [- 1, 0]" "embedding frag_orthogonal = [0, 1]"
    by (simp_all add: frag_opposite_def frag_orthogonal_def)
  have o: "cosine [1, 0] (embedding frag_opposite) = Fin (nearest (- 1 / unit_den))"
    "cosine [1, 0] (embedding frag_orthogonal) = Fin 0"
    using cosine_opposite by (simp_all add: e cosine_orthogonal)
  have m: "nearest (- 1 / unit_den) < MIN_SIMILARITY" "0 < MIN_SIMILARITY"
    using cosine_opposite by (simp_all add: MIN_SIMILARITY_def)
  have below: "\<forall>e\<in>set [frag_opposite, frag_orthogonal].
      \<exists>u. cosine [1, 0] (embedding e) = Fin u \<and> u < MIN_SIMILARITY"
    using o m by simp
  note th = fallback_when_all_below [OF below, of id]
  from th have u: "usedClauses (scored id [1, 0] [frag_opposite, frag_orthogonal])
      = fallback (scored id [1, 0] [frag_opposite, frag_orthogonal])"
    by blast
  from th have "length (usedClauses (scored id [1, 0] [frag_opposite, frag_orthogonal]))
      = min TOP_K (length [frag_opposite, frag_orthogonal])"
    by blast
  then have l: "length (usedClauses (scored id [1, 0] [frag_opposite, frag_orthogonal])) = 2"
    by (simp add: TOP_K_def)
  from th have s: "sorted_wrt score_ge
      (usedClauses (scored id [1, 0] [frag_opposite, frag_orthogonal]))"
    by blast
  have c: "map clause_ref (usedClauses (scored id [1, 0] [frag_opposite, frag_orthogonal]))
       = [lit ''a.pdf::2'', lit ''a.pdf::1'']"
    apply (simp only: u)
    apply (simp only: scored_two)
    apply (simp add: fallback_def TOP_K_def to_clause_def frag_opposite_def frag_orthogonal_def)
    done
  from o m l s c show ?thesis by blast
qed

section \<open>The handler\<close>

subsection \<open>The stages, one at a time\<close>

lemma pipeline_reaches:
  assumes "parseResp env = Inr r1" and "embedText env q = Inr qEmb"
    and "decisionResp env = Inr r2"
  shows "pipeline env embeddings q =
    (case repair (finalJson (JSON_parse env) r2 (parsedQuery (JSON_parse env) r1)
                   (usedClauses (scored (sort_unspecified env) qEmb embeddings)))
               (usedClauses (scored (sort_unspecified env) qEmb embeddings)) of
       Inl e \<Rightarrow> (Json500 e, [])
     | Inr fj \<Rightarrow>
         (case QueryLog_create env
                 (log_entry q fj (usedClauses (scored (sort_unspecified env) qEmb embeddings))) of
            Some e \<Rightarrow> (Json500 e, [])
          | None \<Rightarrow> (Json200 fj,
              [log_entry q fj (usedClauses (scored (sort_unspecified env) qEmb embeddings))])))"
  using assms by (simp add: pipeline_def Let_def)

lemma pipeline_not_400: "fst (pipeline env embeddings q) \<noteq> Json400 v"
  by (simp add: pipeline_def Let_def split: sum.splits option.splits)

lemma pipeline_model_error: "parseResp env = Inl e \<Longrightarrow> pipeline env embeddings q = (Json500 e, [])"
  by (simp add: pipeline_def)

lemma search_route_string:
  "s \<noteq> [] \<Longrightarrow> body_query body = Inr (Some (JStr s)) \<Longrightarrow>
   search_route env embeddings body = pipeline env embeddings s"
  by (simp add: search_route_def rejected_def)

lemma search_route_rejected:
  "body_query body = Inr q \<Longrightarrow> rejected q \<Longrightarrow>
   search_route env embeddings body = (Json400 error_400, [])"
  by (simp add: search_route_def)

lemma rejected_iff: "rejected q = (\<forall>s. q = Some (JStr s) \<longrightarrow> s = [])"
proof (cases q)
  case None
  then show ?thesis by (simp add: rejected_def)
next
  case (Some v)
  then show ?thesis by (cases v) (simp_all add: rejected_def)
qed

lemma parsedQuery_unparsed:
  "parse (extraction_text c) = None \<Longrightarrow> parsedQuery parse (Content c) = JObj []"
  by (simp add: parsedQuery_def extraction_text_def)

lemma parsedQuery_parsed:
  "parse (extraction_text c) = Some v \<Longrightarrow> parsedQuery parse (Content c) = v"
  by (simp add: parsedQuery_def extraction_text_def)

lemma finalJson_unparsed:
  "parse (decision_text c) = None \<Longrightarrow> finalJson parse (Content c) pq uc = fallback_json pq uc"
  by (simp add: finalJson_def decision_text_def Let_def)

lemma finalJson_parsed:
  "parse (decision_text c) = Some v \<Longrightarrow> finalJson parse (Content c) pq uc = v"
  by (simp add: finalJson_def decision_text_def Let_def)

lemma keys_differ:
  "lit ''clauses_used'' \<noteq> lit ''decision''" "lit ''clauses_used'' \<noteq> lit ''parsed_query''"
  "lit ''decision'' \<noteq> lit ''clauses_used''" "lit ''parsed_query'' \<noteq> lit ''clauses_used''"
  "lit ''decision'' \<noteq> lit ''parsed_query''" "lit ''parsed_query'' \<noteq> lit ''decision''"
  by (simp_all add: lit_def)

lemma repair_fallback_json: "repair (fallback_json pq uc) uc = Inr (fallback_json pq uc)"
  by (simp add: fallback_json_def needs_repair_def clauses_json_def lit_def)

lemma repair_object:
  "\<exists>kvs'. repair (JObj kvs) uc = Inr (JObj kvs')
     \<and> map_of kvs' (lit ''decision'') = map_of kvs (lit ''decision'')
     \<and> map_of kvs' (lit ''parsed_query'') = map_of kvs (lit ''parsed_query'')"
  by (simp add: update_conv' keys_differ)

lemma status_of_fallback_json:
  "status_of (fallback_json pq uc) = Some (JStr (lit ''Pending''))"
  by (simp add: status_of_def decision_field_def fallback_json_def lit_def)

subsection \<open>The example requests\<close>

lemma body_knee_query: "body_query body_knee = Inr (Some (JStr (lit ''knee surgery'')))"
  by (simp add: body_knee_def)

lemma knee_nonempty: "lit ''knee surgery'' \<noteq> []"
  by (simp add: lit_def)

lemma text_not_json: "decision_text (Some (lit ''not json'')) = lit ''n''"
  by (simp add: decision_text_def strip_fences_def content_or_empty_def trim_def is_ws_def
      slice_def lit_def)

lemma text_not_json_kept: "extraction_text (Some (lit ''not json'')) = lit ''not json''"
  by (simp add: extraction_text_def strip_fences_def content_or_empty_def trim_def is_ws_def
      lit_def)

lemma text_42_kept: "extraction_text (Some (lit ''42'')) = lit ''42''"
  by (simp add: extraction_text_def strip_fences_def content_or_empty_def trim_def is_ws_def
      lit_def)

lemma text_maybe_kept: "decision_text (Some text_maybe) = text_maybe"
  by (simp add: decision_text_def strip_fences_def content_or_empty_def trim_def is_ws_def
      slice_def lit_def text_maybe_def quoted_def)

lemma text_unused_kept: "decision_text (Some text_unused) = text_unused"
  by (simp add: decision_text_def strip_fences_def content_or_empty_def trim_def is_ws_def
      slice_def lit_def text_unused_def quoted_def)

lemma text_digit: "decision_text (Some (lit ''2'')) = lit ''2''"
  by (simp add: decision_text_def strip_fences_def content_or_empty_def trim_def is_ws_def
      slice_def lit_def)

lemma text_prose: "decision_text (Some (lit ''see clause 2'')) = lit ''2''"
  by (simp add: decision_text_def strip_fences_def content_or_empty_def trim_def is_ws_def
      slice_def lit_def)

lemma texts_differ:
  "lit ''n'' \<noteq> text_maybe" "lit ''n'' \<noteq> text_unused" "lit ''n'' \<noteq> lit ''42''"
  "lit ''not json'' \<noteq> text_maybe" "lit ''not json'' \<noteq> text_unused"
  by (simp_all add: lit_def text_maybe_def text_unused_def quoted_def)

lemma pipeline_unused:
  "pipeline env_unused [frag1] (lit ''knee surgery'')
     = (Json200 (JObj [(lit ''decision'', JObj [(lit ''status'', JStr (lit ''Approved''))]),
                  (lit ''clauses_used'', JArr [clause_json clause1])]),
        [\<lparr>query = lit ''knee surgery'', parsed_query = None,
          decision = Some (JObj [(lit ''status'', JStr (lit ''Approved''))]),
          clauses_used = Some (JArr [clause_json clause1])\<rparr>])"
proof -
  have 1: "parseResp env_unused = Inr (Content (Some (lit ''not json'')))"
   and 2: "embedText env_unused (lit ''knee surgery'') = Inr [1]"
   and 3: "decisionResp env_unused = Inr (Content (Some text_unused))"
   and 4: "JSON_parse env_unused = parse_only text_unused json_unused"
   and 5: "QueryLog_create env_unused = (\<lambda>r. None)"
    by (simp_all add: env_unused_def env_ok_def)
  have pq: "parsedQuery (parse_only text_unused json_unused) (Content (Some (lit ''not json''))) = JObj []"
    by (rule parsedQuery_unparsed) (simp add: text_not_json_kept parse_only_def texts_differ)
  have fj: "finalJson (parse_only text_unused json_unused) (Content (Some text_unused)) (JObj []) [clause1] = json_unused"
    by (rule finalJson_parsed) (simp add: text_unused_kept parse_only_def)
  have rp: "repair json_unused [clause1] = Inr (JObj [(lit ''decision'', JObj [(lit ''status'', JStr (lit ''Approved''))]),
                  (lit ''clauses_used'', JArr [clause_json clause1])])"
    by (simp add: json_unused_def needs_repair_def keys_differ clauses_json_def)
  show ?thesis
    by (simp add: pipeline_reaches [OF 1 2 3] used_frag1 4 5 pq fj rp keys_differ)
qed

lemma pipeline_store_down:
  "pipeline env_store_down [frag1] (lit ''knee surgery'')
     = (Json500 (Failure (lit ''store unavailable'')), [])"
proof -
  have 1: "parseResp env_store_down = Inr (Content (Some (lit ''not json'')))"
   and 2: "embedText env_store_down (lit ''knee surgery'') = Inr [1]"
   and 3: "decisionResp env_store_down = Inr (Content (Some (lit ''not json'')))"
   and 4: "JSON_parse env_store_down = (\<lambda>s. None)"
   and 5: "QueryLog_create env_store_down = (\<lambda>r. Some (Failure (lit ''store unavailable'')))"
    by (simp_all add: env_store_down_def env_ok_def)
  show ?thesis
    by (simp add: pipeline_reaches [OF 1 2 3] used_frag1 4 5 finalJson_unparsed
        repair_fallback_json)
qed

subsection \<open>The check of the request\<close>

text \<open>
  C9. The claim is that the handler rejects exactly when \<open>query\<close> is absent or not a
  string. Below: the body \<open>{query: ""}\<close>, whose query is a string and which is
  rejected; then the statement that holds. The handler answers with the 400 exactly when
  the body can be destructured and its \<open>query\<close> is not a non-empty string, it writes
  no audit record then, and for a non-empty string it runs the pipeline.
\<close>

theorem query_counterexample:
  "body_query body_empty_query = Inr (Some (JStr []))
   \<and> is_string (JStr [])
   \<and> search_route env_ok [] body_empty_query = (Json400 error_400, [])"
  by (simp add: body_empty_query_def search_route_def rejected_def)

text \<open>
  C9, as the handler has it. The response is the 400 exactly when the body can be
  destructured and its \<open>query\<close> is absent, not a string, or the empty string; no audit
  record is written then; and a body whose \<open>query\<close> is a non-empty string is handed
  to the pipeline.
\<close>

theorem rejects_unless_nonempty_string:
  "(fst (search_route env embeddings body) = Json400 error_400)
     = (\<exists>q. body_query body = Inr q \<and> (\<forall>s. q = Some (JStr s) \<longrightarrow> s = []))
   \<and> (body_query body = Inr q \<and> (\<forall>s. q = Some (JStr s) \<longrightarrow> s = [])
        \<longrightarrow> search_route env embeddings body = (Json400 error_400, []))
   \<and> (body_query body = Inr (Some (JStr s)) \<and> s \<noteq> []
        \<longrightarrow> search_route env embeddings body = pipeline env embeddings s)"
proof (intro conjI impI)
  show "(fst (search_route env embeddings body) = Json400 error_400)
     = (\<exists>q. body_query body = Inr q \<and> (\<forall>s. q = Some (JStr s) \<longrightarrow> s = []))"
  proof (cases "body_query body")
    case (Inl e)
    then show ?thesis by (simp add: search_route_def)
  next
    case (Inr q')
    show ?thesis
    proof (cases "rejected q'")
      case True
      with Inr show ?thesis
        by (simp add: search_route_rejected rejected_iff)
    next
      case False
      then obtain s' where s': "q' = Some (JStr s')" "s' \<noteq> []"
        by (auto simp: rejected_iff)
      with Inr have "search_route env embeddings body = pipeline env embeddings s'"
        by (simp add: search_route_string)
      with Inr s' show ?thesis
        by (simp add: pipeline_not_400)
    qed
  qed
next
  assume "body_query body = Inr q \<and> (\<forall>s. q = Some (JStr s) \<longrightarrow> s = [])"
  then show "search_route env embeddings body = (Json400 error_400, [])"
    by (simp add: search_route_rejected rejected_iff)
next
  assume "body_query body = Inr (Some (JStr s)) \<and> s \<noteq> []"
  then show "search_route env embeddings body = pipeline env embeddings s"
    by (simp add: search_route_string)
qed

theorem rejects_unless_nonempty_string_witness:
  "search_route env_ok [] body_empty_query = (Json400 error_400, [])
   \<and> search_route env_ok [] (JObj []) = (Json400 error_400, [])
   \<and> search_route env_ok [] (JObj [(lit ''query'', JNum (Fin 7))]) = (Json400 error_400, [])
   \<and> search_route env_ok [] body_knee = pipeline env_ok [] (lit ''knee surgery'')
   \<and> fst (search_route env_ok [] body_knee) \<noteq> Json400 error_400"
proof -
  have a: "body_query body_empty_query = Inr (Some (JStr []))
      \<and> (\<forall>s. Some (JStr []) = Some (JStr s) \<longrightarrow> s = [])"
    by (simp add: body_empty_query_def)
  have b: "body_query (JObj []) = Inr None \<and> (\<forall>s. None = Some (JStr s) \<longrightarrow> s = [])"
    by simp
  have c: "body_query (JObj [(lit ''query'', JNum (Fin 7))]) = Inr (Some (JNum (Fin 7)))
      \<and> (\<forall>s. Some (JNum (Fin 7)) = Some (JStr s) \<longrightarrow> s = [])"
    by simp
  have d: "body_query body_knee = Inr (Some (JStr (lit ''knee surgery'')))
      \<and> lit ''knee surgery'' \<noteq> []"
    by (simp add: body_knee_query knee_nonempty)
  have e: "\<not> (\<exists>q. body_query body_knee = Inr q \<and> (\<forall>s. q = Some (JStr s) \<longrightarrow> s = []))"
    by (simp add: body_knee_query knee_nonempty)
  note t = rejects_unless_nonempty_string
  from t [of env_ok "[]" body_empty_query "Some (JStr [])"] a
  have 1: "search_route env_ok [] body_empty_query = (Json400 error_400, [])" by blast
  from t [of env_ok "[]" "JObj []" None] b
  have 2: "search_route env_ok [] (JObj []) = (Json400 error_400, [])" by blast
  from t [of env_ok "[]" "JObj [(lit ''query'', JNum (Fin 7))]" "Some (JNum (Fin 7))"] c
  have 3: "search_route env_ok [] (JObj [(lit ''query'', JNum (Fin 7))])
      = (Json400 error_400, [])" by blast
  from t [of env_ok "[]" body_knee _ "lit ''knee surgery''"] d
  have 4: "search_route env_ok [] body_knee = pipeline env_ok [] (lit ''knee surgery'')"
    by blast
  from t [of env_ok "[]" body_knee] e
  have 5: "fst (search_route env_ok [] body_knee) \<noteq> Json400 error_400" by blast
  from 1 2 3 4 5 show ?thesis by blast
qed

subsection \<open>Extraction\<close>

text \<open>
  C2. The claim is that every parse failure at the extraction stage, malformed JSON, a
  JSON result that is not an object, or a model error, yields the empty structured query
  and no error for the caller. Below: a completion answering \<open>42\<close>, whose parsed value
  is kept as \<^verbatim>\<open>parsedQuery\<close> and returned as \<open>parsed_query\<close>, and a completion
  call that fails, which is answered with the 500; then the statement that holds. Text
  that \<^verbatim>\<open>JSON.parse\<close> rejects, or a completion without a message, yields the empty
  object; a value that \<^verbatim>\<open>JSON.parse\<close> accepts is kept whatever it is; a failure of
  the completion call ends the request with the 500.
\<close>

theorem extraction_counterexample:
  "parsedQuery (JSON_parse env_42) (Content (Some (lit ''42''))) = JNum (Fin 42)
   \<and> search_route env_42 [] body_knee
       = (Json200 (fallback_json (JNum (Fin 42)) []),
          [log_entry (lit ''knee surgery'') (fallback_json (JNum (Fin 42)) []) []])
   \<and> search_route env_model_error [] body_knee
       = (Json500 (Failure (lit ''model unavailable'')), [])"
proof -
  have 1: "parseResp env_42 = Inr (Content (Some (lit ''42'')))"
   and 2: "embedText env_42 (lit ''knee surgery'') = Inr [1]"
   and 3: "decisionResp env_42 = Inr (Content (Some (lit ''not json'')))"
   and 4: "JSON_parse env_42 = parse_only (lit ''42'') (JNum (Fin 42))"
   and 5: "QueryLog_create env_42 = (\<lambda>r. None)"
    by (simp_all add: env_42_def env_ok_def)
  have pq: "parsedQuery (JSON_parse env_42) (Content (Some (lit ''42''))) = JNum (Fin 42)"
    by (rule parsedQuery_parsed) (simp add: 4 text_42_kept parse_only_def)
  have fj: "finalJson (JSON_parse env_42) (Content (Some (lit ''not json''))) pq uc
      = fallback_json pq uc" for pq uc
    by (rule finalJson_unparsed) (simp add: 4 text_not_json parse_only_def texts_differ)
  have uc: "usedClauses (scored engine [1] []) = []" for engine
    by (simp add: scored_def sort_desc_def usedClauses_def primary_def fallback_def)
  have a: "search_route env_42 [] body_knee = pipeline env_42 [] (lit ''knee surgery'')"
    by (rule search_route_string [OF knee_nonempty body_knee_query])
  have b: "pipeline env_42 [] (lit ''knee surgery'')
       = (Json200 (fallback_json (JNum (Fin 42)) []),
          [log_entry (lit ''knee surgery'') (fallback_json (JNum (Fin 42)) []) []])"
    by (simp add: pipeline_reaches [OF 1 2 3] uc pq fj repair_fallback_json 5)
  have c: "search_route env_model_error [] body_knee
      = pipeline env_model_error [] (lit ''knee surgery'')"
    by (rule search_route_string [OF knee_nonempty body_knee_query])
  have d: "pipeline env_model_error [] (lit ''knee surgery'')
       = (Json500 (Failure (lit ''model unavailable'')), [])"
    by (rule pipeline_model_error) (simp add: env_model_error_def)
  from pq a b c d show ?thesis by simp
qed

text \<open>
  C2, as the handler has it. A completion without a message, or text that
  \<^verbatim>\<open>JSON.parse\<close> rejects, yields the empty object; a value that \<^verbatim>\<open>JSON.parse\<close>
  accepts is kept whatever it is; a failure of the completion call ends the request with
  the 500.
\<close>

theorem extraction_outcomes:
  "parsedQuery parse Malformed = JObj []
   \<and> (parse (extraction_text c) = None \<longrightarrow> parsedQuery parse (Content c) = JObj [])
   \<and> (parse (extraction_text c) = Some v \<longrightarrow> parsedQuery parse (Content c) = v)
   \<and> (parseResp env = Inl e \<longrightarrow> pipeline env embeddings q = (Json500 e, []))"
  by (simp add: parsedQuery_unparsed parsedQuery_parsed pipeline_model_error)
    (simp add: parsedQuery_def)

theorem extraction_outcomes_witness:
  "parsedQuery (JSON_parse env_ok) (Content (Some (lit ''not json''))) = JObj []
   \<and> parsedQuery (JSON_parse env_42) (Content (Some (lit ''42''))) = JNum (Fin 42)
   \<and> pipeline env_model_error [] (lit ''knee surgery'')
       = (Json500 (Failure (lit ''model unavailable'')), [])"
proof -
  have n: "JSON_parse env_ok (extraction_text (Some (lit ''not json''))) = None"
    by (simp add: env_ok_def)
  have p: "JSON_parse env_42 (extraction_text (Some (lit ''42''))) = Some (JNum (Fin 42))"
    by (simp add: env_42_def text_42_kept parse_only_def)
  have m: "parseResp env_model_error = Inl (Failure (lit ''model unavailable''))"
    by (simp add: env_model_error_def)
  from extraction_outcomes [where parse = "JSON_parse env_ok" and c = "Some (lit ''not json'')"] n
  have a: "parsedQuery (JSON_parse env_ok) (Content (Some (lit ''not json''))) = JObj []"
    by blast
  from extraction_outcomes [where parse = "JSON_parse env_42" and c = "Some (lit ''42'')"
      and v = "JNum (Fin 42)"] p
  have b: "parsedQuery (JSON_parse env_42) (Content (Some (lit ''42''))) = JNum (Fin 42)"
    by blast
  from extraction_outcomes [where env = env_model_error
      and e = "Failure (lit ''model unavailable'')" and embeddings = "[]"
      and q = "lit ''knee surgery''"] m
  have c: "pipeline env_model_error [] (lit ''knee surgery'')
       = (Json500 (Failure (lit ''model unavailable'')), [])"
    by blast
  from a b c show ?thesis by blast
qed

subsection \<open>Retrieval from the empty collection\<close>

text \<open>
  C8. For the empty collection and any query embedding, \<^verbatim>\<open>scored\<close>, the primary
  selection, the fallback selection and \<^verbatim>\<open>usedClauses\<close> are all empty; and the
  handler goes on with no evidence: when the external calls succeed and lines 199 to 201
  raise nothing, the response is the 200 with the assembled result.
\<close>

theorem empty_collection_no_evidence:
  "scored engine qEmb [] = []
   \<and> primary (scored engine qEmb []) = []
   \<and> fallback (scored engine qEmb []) = []
   \<and> usedClauses (scored engine qEmb []) = []
   \<and> (parseResp env = Inr r1 \<and> embedText env q = Inr qEmb \<and> decisionResp env = Inr r2
        \<and> repair (finalJson (JSON_parse env) r2 (parsedQuery (JSON_parse env) r1) []) [] = Inr fj
        \<and> QueryLog_create env (log_entry q fj []) = None
      \<longrightarrow> pipeline env [] q = (Json200 fj, [log_entry q fj []]))"
proof -
  have e: "scored engine qEmb [] = []" for engine
    by (simp add: scored_def sort_desc_def)
  have u: "usedClauses (scored engine qEmb []) = []" for engine
    by (simp add: e usedClauses_def primary_def fallback_def)
  show ?thesis
  proof (intro conjI impI)
    assume a: "parseResp env = Inr r1 \<and> embedText env q = Inr qEmb \<and> decisionResp env = Inr r2
        \<and> repair (finalJson (JSON_parse env) r2 (parsedQuery (JSON_parse env) r1) []) [] = Inr fj
        \<and> QueryLog_create env (log_entry q fj []) = None"
    then have "parseResp env = Inr r1" "embedText env q = Inr qEmb" "decisionResp env = Inr r2"
      by simp_all
    from pipeline_reaches [OF this, of "[]"] a
    show "pipeline env [] q = (Json200 fj, [log_entry q fj []])"
      by (simp add: u)
  qed (simp_all add: e usedClauses_def primary_def fallback_def)
qed

theorem empty_collection_no_evidence_witness:
  "usedClauses (scored id [1] []) = []
   \<and> search_route env_ok [] body_knee
       = (Json200 (fallback_json (JObj []) []),
          [log_entry (lit ''knee surgery'') (fallback_json (JObj []) []) []])"
proof -
  have 1: "parseResp env_ok = Inr (Content (Some (lit ''not json'')))"
   and 2: "embedText env_ok (lit ''knee surgery'') = Inr [1]"
   and 3: "decisionResp env_ok = Inr (Content (Some (lit ''not json'')))"
   and 4: "JSON_parse env_ok = (\<lambda>s. None)"
   and 5: "QueryLog_create env_ok = (\<lambda>r. None)"
    by (simp_all add: env_ok_def)
  have r: "repair (finalJson (JSON_parse env_ok) (Content (Some (lit ''not json'')))
      (parsedQuery (JSON_parse env_ok) (Content (Some (lit ''not json'')))) []) []
      = Inr (fallback_json (JObj []) [])"
    by (simp add: 4 finalJson_unparsed parsedQuery_def repair_fallback_json)
  have "search_route env_ok [] body_knee = pipeline env_ok [] (lit ''knee surgery'')"
    by (rule search_route_string [OF knee_nonempty body_knee_query])
  with empty_collection_no_evidence [of id "[1]" env_ok "Content (Some (lit ''not json''))"
      "lit ''knee surgery''" "Content (Some (lit ''not json''))" "fallback_json (JObj []) []"]
  show ?thesis
    by (simp add: 1 2 3 5 r usedClauses_def primary_def fallback_def)
qed

subsection \<open>Adjudication\<close>

text \<open>
  The \<^verbatim>\<open>catch\<close> path of the adjudication stage: for every evidence set \<open>uc\<close> and
  every extractor output \<open>pq\<close>, when \<^verbatim>\<open>JSON.parse\<close> rejects the text handed to it,
  the assembled result is the fallback object with \<open>decision.status = "Pending"\<close>,
  \<open>decision.amount = null\<close>, \<open>decision.justification = "Could not parse LLM output"\<close>,
  \<open>parsed_query = pq\<close>, and \<open>clauses_used\<close> the evidence clauses, each with its
  dataset, reference, excerpt and computed score.
\<close>

lemma catch_block_result:
  assumes "parse (decision_text c) = None"
  shows "repair (finalJson parse (Content c) pq uc) uc = Inr (fallback_json pq uc)
    \<and> decision_field (fallback_json pq uc) (lit ''status'') = Some (JStr (lit ''Pending''))
    \<and> decision_field (fallback_json pq uc) (lit ''amount'') = Some JNull
    \<and> decision_field (fallback_json pq uc) (lit ''justification'')
        = Some (JStr (lit ''Could not parse LLM output''))
    \<and> get_prop (fallback_json pq uc) (lit ''parsed_query'') = Some pq
    \<and> get_prop (fallback_json pq uc) (lit ''clauses_used'') = Some (JArr (map clause_json uc))
    \<and> (\<forall>c\<in>set uc. get_prop (clause_json c) (lit ''score'') = Some (JNum (score_c c))
          \<and> get_prop (clause_json c) (lit ''excerpt'') = Some (JStr (excerpt c))
          \<and> get_prop (clause_json c) (lit ''clause_ref'') = Some (JStr (clause_ref c))
          \<and> get_prop (clause_json c) (lit ''dataset'') = Some (JStr (dataset_c c)))"
proof (intro conjI ballI)
  show "repair (finalJson parse (Content c) pq uc) uc = Inr (fallback_json pq uc)"
    using assms by (simp add: finalJson_unparsed repair_fallback_json)
qed (simp_all add: decision_field_def fallback_json_def clauses_json_def clause_json_def lit_def)

lemma catch_block_result_example:
  "JSON_parse env_ok (decision_text (Some (lit ''not json''))) = None
   \<and> repair (finalJson (JSON_parse env_ok) (Content (Some (lit ''not json''))) (JObj []) [clause1])
        [clause1] = Inr (fallback_json (JObj []) [clause1])
   \<and> decision_field (fallback_json (JObj []) [clause1]) (lit ''status'')
        = Some (JStr (lit ''Pending''))
   \<and> get_prop (clause_json clause1) (lit ''score'')
        = Some (JNum (Fin (nearest (1 / unit_den))))"
proof -
  have p: "JSON_parse env_ok (decision_text (Some (lit ''not json''))) = None"
    by (simp add: env_ok_def)
  have s: "score_c clause1 = Fin (nearest (1 / unit_den))"
    by (simp add: clause1_def)
  from catch_block_result [where parse = "JSON_parse env_ok"
      and c = "Some (lit ''not json'')" and pq = "JObj []" and uc = "[clause1]"] p s
  show ?thesis
    by simp
qed

text \<open>
  C4. The claim is that an adjudication output that does not parse as JSON gives the
  fallback decision. The output \<open>see clause 2\<close> is not JSON and holds no brace, so
  \<^verbatim>\<open>indexOf\<close> is \<open>-1\<close> and \<^verbatim>\<open>slice(-1)\<close> keeps its last code unit; \<open>2\<close>
  parses, the \<^verbatim>\<open>catch\<close> block is not entered, \<^verbatim>\<open>finalJson\<close> is the number 2,
  the assignment on line 200 raises, and the request ends with the 500.
\<close>

theorem prose_output_not_fallback:
  "decision_text (Some (lit ''see clause 2'')) = lit ''2''
   \<and> finalJson (JSON_parse env_prose) (Content (Some (lit ''see clause 2''))) (JObj []) [clause1]
       = JNum (Fin 2)
   \<and> search_route env_prose [frag1] body_knee = (Json500 TypeError, [])"
proof -
  have 1: "parseResp env_prose = Inr (Content (Some (lit ''not json'')))"
   and 2: "embedText env_prose (lit ''knee surgery'') = Inr [1]"
   and 3: "decisionResp env_prose = Inr (Content (Some (lit ''see clause 2'')))"
   and 4: "JSON_parse env_prose = parse_only (lit ''2'') (JNum (Fin 2))"
    by (simp_all add: env_prose_def env_ok_def)
  have fj: "finalJson (JSON_parse env_prose) (Content (Some (lit ''see clause 2''))) pq uc
      = JNum (Fin 2)" for pq uc
    by (rule finalJson_parsed) (simp add: 4 text_prose parse_only_def)
  have a: "search_route env_prose [frag1] body_knee
      = pipeline env_prose [frag1] (lit ''knee surgery'')"
    by (rule search_route_string [OF knee_nonempty body_knee_query])
  have b: "pipeline env_prose [frag1] (lit ''knee surgery'') = (Json500 TypeError, [])"
    by (simp add: pipeline_reaches [OF 1 2 3] fj)
  from text_prose fj a b show ?thesis by simp
qed

text \<open>
  The repair of lines 199 to 201 on an object: when the adjudication text parses to an
  object whose \<open>clauses_used\<close> is missing or the empty array, the assembled result is
  that object with \<open>clauses_used\<close> set to the evidence clauses; so it is not empty when
  the evidence is not.
\<close>

lemma clauses_used_replaced_in_object:
  assumes "parse (decision_text c) = Some (JObj kvs)"
    and "map_of kvs (lit ''clauses_used'') = None
         \<or> map_of kvs (lit ''clauses_used'') = Some (JArr [])"
  shows "repair (finalJson parse (Content c) pq uc) uc
      = Inr (JObj (AList.update (lit ''clauses_used'') (clauses_json uc) kvs))
    \<and> get_prop (JObj (AList.update (lit ''clauses_used'') (clauses_json uc) kvs))
        (lit ''clauses_used'') = Some (JArr (map clause_json uc))
    \<and> (uc \<noteq> [] \<longrightarrow> map clause_json uc \<noteq> [])"
proof -
  from assms(2) have "needs_repair (map_of kvs (lit ''clauses_used''))"
    by (auto simp: needs_repair_def)
  with assms(1) show ?thesis
    by (simp add: finalJson_parsed update_conv' clauses_json_def)
qed

lemma clauses_used_replaced_example:
  "JSON_parse env_unused (decision_text (Some text_unused)) = Some json_unused
   \<and> get_prop json_unused (lit ''clauses_used'') = Some (JArr [])
   \<and> repair (finalJson (JSON_parse env_unused) (Content (Some text_unused)) (JObj []) [clause1])
        [clause1]
      = Inr (JObj [(lit ''decision'', JObj [(lit ''status'', JStr (lit ''Approved''))]),
                   (lit ''clauses_used'', JArr [clause_json clause1])])"
proof -
  have p: "JSON_parse env_unused (decision_text (Some text_unused))
      = Some (JObj [(lit ''decision'', JObj [(lit ''status'', JStr (lit ''Approved''))]),
                    (lit ''clauses_used'', JArr [])])"
    by (simp add: env_unused_def text_unused_kept parse_only_def json_unused_def)
  have e: "map_of [(lit ''decision'', JObj [(lit ''status'', JStr (lit ''Approved''))]),
                    (lit ''clauses_used'', JArr [])] (lit ''clauses_used'') = None
      \<or> map_of [(lit ''decision'', JObj [(lit ''status'', JStr (lit ''Approved''))]),
                    (lit ''clauses_used'', JArr [])] (lit ''clauses_used'') = Some (JArr [])"
    by (simp add: keys_differ)
  from clauses_used_replaced_in_object [where parse = "JSON_parse env_unused"
      and c = "Some text_unused" and pq = "JObj []" and uc = "[clause1]", OF p e] p
  show ?thesis
    by (simp add: json_unused_def keys_differ clauses_json_def)
qed

text \<open>
  C7. The claim is that every successfully parsed adjudication output whose
  \<open>clauses_used\<close> is missing comes back with the evidence clauses in its place. The
  output \<open>2\<close> parses, to the number 2, which has no \<open>clauses_used\<close>; the assignment
  on line 200 to a property of a number raises, and the request ends with the 500,
  with no \<open>clauses_used\<close> at all.
\<close>

theorem number_output_not_repaired:
  "finalJson (JSON_parse env_digit) (Content (Some (lit ''2''))) (JObj []) [clause1]
     = JNum (Fin 2)
   \<and> get_prop (JNum (Fin 2)) (lit ''clauses_used'') = None
   \<and> repair (JNum (Fin 2)) [clause1] = Inl TypeError
   \<and> search_route env_digit [frag1] body_knee = (Json500 TypeError, [])"
proof -
  have 1: "parseResp env_digit = Inr (Content (Some (lit ''not json'')))"
   and 2: "embedText env_digit (lit ''knee surgery'') = Inr [1]"
   and 3: "decisionResp env_digit = Inr (Content (Some (lit ''2'')))"
   and 4: "JSON_parse env_digit = parse_only (lit ''2'') (JNum (Fin 2))"
    by (simp_all add: env_digit_def env_ok_def)
  have fj: "finalJson (JSON_parse env_digit) (Content (Some (lit ''2''))) pq uc
      = JNum (Fin 2)" for pq uc
    by (rule finalJson_parsed) (simp add: 4 text_digit parse_only_def)
  have a: "search_route env_digit [frag1] body_knee
      = pipeline env_digit [frag1] (lit ''knee surgery'')"
    by (rule search_route_string [OF knee_nonempty body_knee_query])
  have b: "pipeline env_digit [frag1] (lit ''knee surgery'') = (Json500 TypeError, [])"
    by (simp add: pipeline_reaches [OF 1 2 3] fj)
  from fj a b show ?thesis by simp
qed

text \<open>
  C3. The claim is that \<open>decision.status\<close> of every response is one of
  \<open>"Approved"\<close>, \<open>"Rejected"\<close>, \<open>"Pending"\<close>, any other value counting as a parse
  failure. Below: a completion whose JSON has the status \<open>"Maybe"\<close>, returned as it
  is; then the statement that holds. On the fallback path the status is \<open>"Pending"\<close>;
  when the text parses to an object, its \<open>decision\<close> and so its status are returned
  unchanged, whatever they are.
\<close>

theorem status_counterexample:
  "search_route env_maybe [] body_knee
     = (Json200 (JObj [(lit ''decision'', JObj [(lit ''status'', JStr (lit ''Maybe''))]),
                       (lit ''clauses_used'', JArr [])]),
        [\<lparr>query = lit ''knee surgery'', parsed_query = None,
          decision = Some (JObj [(lit ''status'', JStr (lit ''Maybe''))]),
          clauses_used = Some (JArr [])\<rparr>])
   \<and> status_of (JObj [(lit ''decision'', JObj [(lit ''status'', JStr (lit ''Maybe''))]),
                       (lit ''clauses_used'', JArr [])]) = Some (JStr (lit ''Maybe''))
   \<and> \<not> enumerated_status (Some (JStr (lit ''Maybe'')))"
proof -
  have 1: "parseResp env_maybe = Inr (Content (Some (lit ''not json'')))"
   and 2: "embedText env_maybe (lit ''knee surgery'') = Inr [1]"
   and 3: "decisionResp env_maybe = Inr (Content (Some text_maybe))"
   and 4: "JSON_parse env_maybe = parse_only text_maybe json_maybe"
   and 5: "QueryLog_create env_maybe = (\<lambda>r. None)"
    by (simp_all add: env_maybe_def env_ok_def)
  have pq: "parsedQuery (parse_only text_maybe json_maybe) (Content (Some (lit ''not json'')))
      = JObj []"
    by (rule parsedQuery_unparsed) (simp add: text_not_json_kept parse_only_def texts_differ)
  have fj: "finalJson (parse_only text_maybe json_maybe) (Content (Some text_maybe)) pq uc
      = json_maybe" for pq uc
    by (rule finalJson_parsed) (simp add: text_maybe_kept parse_only_def)
  have uc: "usedClauses (scored engine [1] []) = []" for engine
    by (simp add: scored_def sort_desc_def usedClauses_def primary_def fallback_def)
  have rp: "repair json_maybe []
      = Inr (JObj [(lit ''decision'', JObj [(lit ''status'', JStr (lit ''Maybe''))]),
                   (lit ''clauses_used'', JArr [])])"
    by (simp add: json_maybe_def needs_repair_def keys_differ clauses_json_def)
  have a: "search_route env_maybe [] body_knee = pipeline env_maybe [] (lit ''knee surgery'')"
    by (rule search_route_string [OF knee_nonempty body_knee_query])
  have b: "pipeline env_maybe [] (lit ''knee surgery'')
     = (Json200 (JObj [(lit ''decision'', JObj [(lit ''status'', JStr (lit ''Maybe''))]),
                       (lit ''clauses_used'', JArr [])]),
        [\<lparr>query = lit ''knee surgery'', parsed_query = None,
          decision = Some (JObj [(lit ''status'', JStr (lit ''Maybe''))]),
          clauses_used = Some (JArr [])\<rparr>])"
    by (simp add: pipeline_reaches [OF 1 2 3] uc 4 5 pq fj rp keys_differ)
  have c: "status_of (JObj [(lit ''decision'', JObj [(lit ''status'', JStr (lit ''Maybe''))]),
                       (lit ''clauses_used'', JArr [])]) = Some (JStr (lit ''Maybe''))"
    by (simp add: status_of_def decision_field_def)
  have d: "\<not> enumerated_status (Some (JStr (lit ''Maybe'')))"
    by (simp add: enumerated_status_def lit_def)
  from a b c d show ?thesis by simp
qed

text \<open>
  C3, as the handler has it. On the fallback path, whether \<^verbatim>\<open>JSON.parse\<close> rejects
  the text or the completion has no message, the status is \<open>"Pending"\<close>; when the
  text parses to an object, its \<open>decision\<close>, and so its status, is returned unchanged.
\<close>

theorem status_not_validated:
  "(parse (decision_text c) = None \<longrightarrow>
      repair (finalJson parse (Content c) pq uc) uc = Inr (fallback_json pq uc)
      \<and> status_of (fallback_json pq uc) = Some (JStr (lit ''Pending'')))
   \<and> repair (finalJson parse Malformed pq uc) uc = Inr (fallback_json pq uc)
   \<and> (parse (decision_text c) = Some (JObj kvs) \<longrightarrow>
      (\<exists>kvs'. repair (finalJson parse (Content c) pq uc) uc = Inr (JObj kvs')
         \<and> get_prop (JObj kvs') (lit ''decision'') = get_prop (JObj kvs) (lit ''decision'')
         \<and> status_of (JObj kvs') = status_of (JObj kvs)))"
proof (intro conjI impI)
  assume "parse (decision_text c) = None"
  then show "repair (finalJson parse (Content c) pq uc) uc = Inr (fallback_json pq uc)"
    by (simp add: finalJson_unparsed repair_fallback_json)
  show "status_of (fallback_json pq uc) = Some (JStr (lit ''Pending''))"
    by (rule status_of_fallback_json)
next
  show "repair (finalJson parse Malformed pq uc) uc = Inr (fallback_json pq uc)"
    by (simp add: finalJson_def repair_fallback_json)
next
  assume p: "parse (decision_text c) = Some (JObj kvs)"
  from repair_object [of kvs uc] obtain kvs' where
    k: "repair (JObj kvs) uc = Inr (JObj kvs')"
       "map_of kvs' (lit ''decision'') = map_of kvs (lit ''decision'')"
    by blast
  from k p have "repair (finalJson parse (Content c) pq uc) uc = Inr (JObj kvs')
         \<and> get_prop (JObj kvs') (lit ''decision'') = get_prop (JObj kvs) (lit ''decision'')
         \<and> status_of (JObj kvs') = status_of (JObj kvs)"
    by (simp add: finalJson_parsed status_of_def decision_field_def)
  then show "\<exists>kvs'. repair (finalJson parse (Content c) pq uc) uc = Inr (JObj kvs')
         \<and> get_prop (JObj kvs') (lit ''decision'') = get_prop (JObj kvs) (lit ''decision'')
         \<and> status_of (JObj kvs') = status_of (JObj kvs)"
    by blast
qed

theorem status_not_validated_witness:
  "repair (finalJson (JSON_parse env_ok) (Content (Some (lit ''not json''))) (JObj []) []) []
     = Inr (fallback_json (JObj []) [])
   \<and> status_of (fallback_json (JObj []) []) = Some (JStr (lit ''Pending''))
   \<and> (\<exists>kvs'. repair (finalJson (JSON_parse env_maybe) (Content (Some text_maybe)) (JObj []) [])
                  [] = Inr (JObj kvs')
         \<and> status_of (JObj kvs') = Some (JStr (lit ''Maybe'')))"
proof -
  have n: "JSON_parse env_ok (decision_text (Some (lit ''not json''))) = None"
    by (simp add: env_ok_def)
  have p: "JSON_parse env_maybe (decision_text (Some text_maybe))
      = Some (JObj [(lit ''decision'', JObj [(lit ''status'', JStr (lit ''Maybe''))])])"
    by (simp add: env_maybe_def text_maybe_kept parse_only_def json_maybe_def)
  have st: "status_of (JObj [(lit ''decision'', JObj [(lit ''status'', JStr (lit ''Maybe''))])])
      = Some (JStr (lit ''Maybe''))"
    by (simp add: status_of_def decision_field_def)
  from status_not_validated [where parse = "JSON_parse env_ok"
      and c = "Some (lit ''not json'')" and pq = "JObj []" and uc = "[]"] n
  have a: "repair (finalJson (JSON_parse env_ok) (Content (Some (lit ''not json''))) (JObj []) [])
      [] = Inr (fallback_json (JObj []) [])
    \<and> status_of (fallback_json (JObj []) []) = Some (JStr (lit ''Pending''))"
    by blast
  from status_not_validated [where parse = "JSON_parse env_maybe"
      and c = "Some text_maybe" and pq = "JObj []" and uc = "[]"
      and kvs = "[(lit ''decision'', JObj [(lit ''status'', JStr (lit ''Maybe''))])]"] p
  have b: "\<exists>kvs'. repair (finalJson (JSON_parse env_maybe) (Content (Some text_maybe))
                  (JObj []) []) [] = Inr (JObj kvs')
         \<and> status_of (JObj kvs')
            = status_of (JObj [(lit ''decision'', JObj [(lit ''status'', JStr (lit ''Maybe''))])])"
    by blast
  from a b show ?thesis unfolding st by blast
qed

subsection \<open>The audit record\<close>

text \<open>
  C1. The claim is that a failure of the audit-store append does not keep the assembled
  result from the caller. In the source \<^verbatim>\<open>await QueryLog.create\<close> stands before
  \<^verbatim>\<open>res.json\<close> inside the outer \<^verbatim>\<open>try\<close>. Below: a request whose result is
  assembled, whose append fails, and which is answered with the 500; then the statement
  that holds, the caller receives the assembled result exactly when the append succeeds
  and the 500 with the store's error when it fails.
\<close>

theorem audit_failure_counterexample:
  "repair (finalJson (JSON_parse env_store_down) (Content (Some (lit ''not json'')))
       (parsedQuery (JSON_parse env_store_down) (Content (Some (lit ''not json''))))
       [clause1]) [clause1]
     = Inr (fallback_json (JObj []) [clause1])
   \<and> QueryLog_create env_store_down
       (log_entry (lit ''knee surgery'') (fallback_json (JObj []) [clause1]) [clause1])
     = Some (Failure (lit ''store unavailable''))
   \<and> search_route env_store_down [frag1] body_knee
     = (Json500 (Failure (lit ''store unavailable'')), [])"
proof -
  have 4: "JSON_parse env_store_down = (\<lambda>s. None)"
   and 5: "QueryLog_create env_store_down = (\<lambda>r. Some (Failure (lit ''store unavailable'')))"
    by (simp_all add: env_store_down_def env_ok_def)
  have "search_route env_store_down [frag1] body_knee
      = pipeline env_store_down [frag1] (lit ''knee surgery'')"
    by (rule search_route_string [OF knee_nonempty body_knee_query])
  then show ?thesis
    by (simp add: pipeline_store_down 4 5 finalJson_unparsed parsedQuery_def
        repair_fallback_json)
qed

text \<open>
  C1, as the handler has it. Once the result is assembled, the caller receives it, and
  the record is written, exactly when the append succeeds; when the append fails the
  caller receives the 500 with the store's error and nothing is written.
\<close>

theorem audit_failure_fails_request:
  assumes "parseResp env = Inr r1" and "embedText env q = Inr qEmb"
    and "decisionResp env = Inr r2"
    and "uc = usedClauses (scored (sort_unspecified env) qEmb embeddings)"
    and "repair (finalJson (JSON_parse env) r2 (parsedQuery (JSON_parse env) r1) uc) uc = Inr fj"
  shows "(QueryLog_create env (log_entry q fj uc) = Some e
            \<longrightarrow> pipeline env embeddings q = (Json500 e, []))
       \<and> (QueryLog_create env (log_entry q fj uc) = None
            \<longrightarrow> pipeline env embeddings q = (Json200 fj, [log_entry q fj uc]))"
  using assms(4,5) by (simp add: pipeline_reaches [OF assms(1,2,3)])

theorem audit_failure_fails_request_witness:
  "pipeline env_store_down [frag1] (lit ''knee surgery'')
     = (Json500 (Failure (lit ''store unavailable'')), [])
   \<and> pipeline env_ok [frag1] (lit ''knee surgery'')
     = (Json200 (fallback_json (JObj []) [clause1]),
        [log_entry (lit ''knee surgery'') (fallback_json (JObj []) [clause1]) [clause1]])"
proof -
  have d: "parseResp env_store_down = Inr (Content (Some (lit ''not json'')))"
    "embedText env_store_down (lit ''knee surgery'') = Inr [1]"
    "decisionResp env_store_down = Inr (Content (Some (lit ''not json'')))"
    "[clause1] = usedClauses (scored (sort_unspecified env_store_down) [1] [frag1])"
    "repair (finalJson (JSON_parse env_store_down) (Content (Some (lit ''not json'')))
       (parsedQuery (JSON_parse env_store_down) (Content (Some (lit ''not json''))))
       [clause1]) [clause1] = Inr (fallback_json (JObj []) [clause1])"
    by (simp_all add: env_store_down_def env_ok_def used_frag1 finalJson_unparsed
        parsedQuery_def repair_fallback_json)
  have k: "parseResp env_ok = Inr (Content (Some (lit ''not json'')))"
    "embedText env_ok (lit ''knee surgery'') = Inr [1]"
    "decisionResp env_ok = Inr (Content (Some (lit ''not json'')))"
    "[clause1] = usedClauses (scored (sort_unspecified env_ok) [1] [frag1])"
    "repair (finalJson (JSON_parse env_ok) (Content (Some (lit ''not json'')))
       (parsedQuery (JSON_parse env_ok) (Content (Some (lit ''not json''))))
       [clause1]) [clause1] = Inr (fallback_json (JObj []) [clause1])"
    by (simp_all add: env_ok_def used_frag1 finalJson_unparsed
        parsedQuery_def repair_fallback_json)
  have sd: "QueryLog_create env_store_down
       (log_entry (lit ''knee surgery'') (fallback_json (JObj []) [clause1]) [clause1])
     = Some (Failure (lit ''store unavailable''))"
    by (simp add: env_store_down_def)
  have so: "QueryLog_create env_ok
       (log_entry (lit ''knee surgery'') (fallback_json (JObj []) [clause1]) [clause1]) = None"
    by (simp add: env_ok_def)
  from audit_failure_fails_request [OF d, of "Failure (lit ''store unavailable'')"] sd
  have a: "pipeline env_store_down [frag1] (lit ''knee surgery'')
     = (Json500 (Failure (lit ''store unavailable'')), [])"
    by blast
  from audit_failure_fails_request [OF k] so
  have b: "pipeline env_ok [frag1] (lit ''knee surgery'')
     = (Json200 (fallback_json (JObj []) [clause1]),
        [log_entry (lit ''knee surgery'') (fallback_json (JObj []) [clause1]) [clause1]])"
    by blast
  from a b show ?thesis by blast
qed

end
